theory Spec2Isabelle
  imports Complex_Main "HOL-Library.Word"
begin

section \<open>JavaScript values\<close>

text \<open>
  A JavaScript string is a sequence of UTF-16 code units. String literals of the source
  are ASCII and are written \<open>js ''...''\<close>.
\<close>

type_synonym jsstring = "16 word list"

definition js :: "string \<Rightarrow> jsstring" where
  "js s = map of_char s"

text \<open>The code unit of a number below \<open>2^16\<close>.\<close>

definition code_unit :: "nat \<Rightarrow> 16 word" where
  "code_unit n = of_nat n"

text \<open>
  \<open>T | null | undefined\<close>: what a \<open>parse\<close> function can return at run time, and what it
  can receive (the declared parameter type is \<open>string\<close>, but \<open>parseServerSide\<close> can hand it
  \<open>undefined\<close>).
\<close>

datatype 'a maybe = Undefined | Null | Val 'a

text \<open>Exceptions are values: \<open>Inl e\<close> is a thrown \<open>e\<close>, \<open>Inr v\<close> a normal return.\<close>

datatype exn = URIError | SyntaxError | TypeError | RangeError | Thrown jsstring

type_synonym 'a result = "exn + 'a"

definition bind_result :: "'a result \<Rightarrow> ('a \<Rightarrow> 'b result) \<Rightarrow> 'b result" where
  "bind_result r f = (case r of Inl e \<Rightarrow> Inl e | Inr v \<Rightarrow> f v)"

text \<open>\<open>a ?? b\<close>: \<open>b\<close> when \<open>a\<close> is \<open>null\<close> or \<open>undefined\<close>, \<open>a\<close> otherwise.\<close>

fun nullish_coalesce :: "'a maybe \<Rightarrow> 'a maybe \<Rightarrow> 'a maybe" where
  "nullish_coalesce (Val v) b = Val v"
| "nullish_coalesce Null b = b"
| "nullish_coalesce Undefined b = b"

section \<open>Platform functions on numbers and dates\<close>

text \<open>
  A JavaScript number is an IEEE-754 double. The model keeps \<open>NaN\<close> and the two
  infinities apart and takes a finite number as the real it denotes, so the type has
  more finite values than there are doubles; \<open>\<plusminus>0\<close> are one value (they are equal under
  \<open>===\<close>).
\<close>

datatype number = NaN | PosInfinity | NegInfinity | Fin real

fun bit_length :: "nat \<Rightarrow> nat" where
  "bit_length n = (if n = 0 then 0 else Suc (bit_length (n div 2)))"

text \<open>
  The double nearest to an integer, ties to even, infinite from \<open>2^1024 - 2^970\<close> on.
\<close>

definition to_double :: "int \<Rightarrow> number" where
  "to_double n =
     (let a = nat \<bar>n\<bar> in
      if a < 2 ^ 53 then Fin (of_int n)
      else
        let e = bit_length a - 53;
            q = a div 2 ^ e;
            r = a mod 2 ^ e;
            h = 2 ^ (e - 1);
            q' = (if h < r \<or> (r = h \<and> odd q) then q + 1 else q);
            m = q' * 2 ^ e
        in if 2 ^ 1024 \<le> m then (if n < 0 then NegInfinity else PosInfinity)
           else Fin (of_int (sgn n * int m)))"

text \<open>
  \<open>ToString\<close> of a \<open>parse\<close> argument, as \<open>parseInt\<close>, \<open>parseFloat\<close> and
  \<open>decodeURIComponent\<close> apply it.
\<close>

fun ToString :: "jsstring maybe \<Rightarrow> jsstring" where
  "ToString (Val s) = s"
| "ToString Undefined = js ''undefined''"
| "ToString Null = js ''null''"

text \<open>White space and line terminators, which \<open>parseInt\<close> skips at the start.\<close>

definition is_whitespace :: "16 word \<Rightarrow> bool" where
  "is_whitespace c =
     (c = 0x09 \<or> c = 0x0A \<or> c = 0x0B \<or> c = 0x0C \<or> c = 0x0D \<or> c = 0x20 \<or> c = 0xA0
      \<or> c = 0x1680 \<or> (0x2000 \<le> c \<and> c \<le> 0x200A) \<or> c = 0x2028 \<or> c = 0x2029
      \<or> c = 0x202F \<or> c = 0x205F \<or> c = 0x3000 \<or> c = 0xFEFF)"

definition digit_value :: "16 word \<Rightarrow> nat option" where
  "digit_value c =
     (let n = unat c in
      if 48 \<le> n \<and> n \<le> 57 then Some (n - 48)
      else if 97 \<le> n \<and> n \<le> 122 then Some (n - 87)
      else if 65 \<le> n \<and> n \<le> 90 then Some (n - 55)
      else None)"

definition is_radix_digit :: "nat \<Rightarrow> 16 word \<Rightarrow> bool" where
  "is_radix_digit R c = (case digit_value c of Some d \<Rightarrow> d < R | None \<Rightarrow> False)"

definition digits_value :: "nat \<Rightarrow> jsstring \<Rightarrow> nat" where
  "digits_value R Z =
     foldl (\<lambda>acc c. acc * R + (case digit_value c of Some d \<Rightarrow> d | None \<Rightarrow> 0)) 0 Z"

text \<open>
  \<open>parseInt(string)\<close> with no radix: skip leading white space, read a sign, read
  \<open>0x\<close> or \<open>0X\<close> as the mark of radix 16, take the longest run of digits; no digit gives
  \<open>NaN\<close>, everything after the digits is ignored. (ECMAScript lets an implementation
  replace the digits after the 20th by zeros; the model reads all of them.)
\<close>

definition parseInt :: "jsstring \<Rightarrow> number" where
  "parseInt inputString =
     (let S0 = dropWhile is_whitespace inputString;
          sign = (case S0 of c # _ \<Rightarrow> if c = 0x2D then - 1 else 1 | [] \<Rightarrow> (1::int));
          S1 = (case S0 of c # cs \<Rightarrow> if c = 0x2B \<or> c = 0x2D then cs else S0 | [] \<Rightarrow> S0);
          hex = (case S1 of a # b # _ \<Rightarrow> a = 0x30 \<and> (b = 0x78 \<or> b = 0x58) | _ \<Rightarrow> False);
          R = (if hex then 16 else 10);
          S2 = (if hex then drop 2 S1 else S1);
          Z = takeWhile (is_radix_digit R) S2
      in if Z = [] then NaN else to_double (sign * int (digits_value R Z)))"

text \<open>\<open>Math.round\<close>: the nearest integer, a half rounding up.\<close>

fun Math_round :: "number \<Rightarrow> number" where
  "Math_round (Fin r) = Fin (of_int \<lfloor>r + 1 / 2\<rfloor>)"
| "Math_round x = x"

fun decimal :: "nat \<Rightarrow> jsstring" where
  "decimal n = (if n < 10 then [code_unit (48 + n)] else decimal (n div 10) @ [code_unit (48 + n mod 10)])"

declare decimal.simps [simp del]

definition int_to_string :: "int \<Rightarrow> jsstring" where
  "int_to_string i = (if i < 0 then js ''-'' @ decimal (nat (- i)) else decimal (nat i))"

text \<open>
  \<open>Number.prototype.toString()\<close> writes the shortest digits that read back as the
  same double. For an integer below \<open>2^53\<close> in absolute value these are its decimal
  digits (every such integer is a double of its own). For every other finite number
  the digits are the platform's (from \<open>2^53\<close> on the last digits of an integer can be
  replaced by zeros, from \<open>10^21\<close> on the notation has an exponent): the parameter
  \<open>ntos\<close>.
\<close>

fun Number_toString :: "(real \<Rightarrow> jsstring) \<Rightarrow> number \<Rightarrow> jsstring" where
  "Number_toString ntos NaN = js ''NaN''"
| "Number_toString ntos PosInfinity = js ''Infinity''"
| "Number_toString ntos NegInfinity = js ''-Infinity''"
| "Number_toString ntos (Fin r) =
     (if of_int \<lfloor>r\<rfloor> = r \<and> \<bar>r\<bar> < 2 ^ 53 then int_to_string \<lfloor>r\<rfloor> else ntos r)"

text \<open>
  \<open>Number.prototype.toFixed()\<close> with no argument (no fraction digits): the nearest
  integer in all its decimal digits, a half rounding away from zero; from \<open>10^21\<close> on,
  and for \<open>NaN\<close> and the infinities, the result of \<open>toString\<close>.
\<close>

fun toFixed :: "(real \<Rightarrow> jsstring) \<Rightarrow> number \<Rightarrow> jsstring" where
  "toFixed ntos (Fin r) =
     (let s = (if r < 0 then js ''-'' else []);
          x = \<bar>r\<bar>
      in if 10 ^ 21 \<le> x then s @ Number_toString ntos (Fin x)
         else s @ decimal (nat \<lfloor>x + 1 / 2\<rfloor>))"
| "toFixed ntos x = Number_toString ntos x"

text \<open>
  A \<open>Date\<close> object holds a time value: \<open>NaN\<close> (an invalid date) or a whole number of
  milliseconds of absolute value at most \<open>8.64 * 10^15\<close>.
\<close>

datatype date = Date (valueOf: number)

fun TimeClip :: "number \<Rightarrow> number" where
  "TimeClip (Fin r) =
     (if 8640000000000000 < \<bar>r\<bar> then NaN
      else Fin (of_int (if r < 0 then \<lceil>r\<rceil> else \<lfloor>r\<rfloor>)))"
| "TimeClip x = NaN"

text \<open>\<open>new Date(n)\<close> for a number \<open>n\<close>.\<close>

definition new_Date_number :: "number \<Rightarrow> date" where
  "new_Date_number n = Date (TimeClip n)"

text \<open>
  \<open>new Date(v)\<close> for a \<open>parse\<close> argument: a string goes through \<open>Date.parse\<close>, whose
  reading of strings outside the ISO format is the implementation's (the parameter
  \<open>Date_parse\<close>); \<open>undefined\<close> converts to \<open>NaN\<close> and \<open>null\<close> to \<open>0\<close>.
\<close>

fun new_Date_value :: "(jsstring \<Rightarrow> number) \<Rightarrow> jsstring maybe \<Rightarrow> date" where
  "new_Date_value Date_parse (Val s) = Date (TimeClip (Date_parse s))"
| "new_Date_value Date_parse Undefined = Date (TimeClip NaN)"
| "new_Date_value Date_parse Null = Date (TimeClip (Fin 0))"

text \<open>
  \<open>Date.prototype.toISOString()\<close>: a \<open>RangeError\<close> on an invalid date, the platform's
  rendering of the time value (the parameter \<open>render\<close>) otherwise.
\<close>

fun toISOString :: "(int \<Rightarrow> jsstring) \<Rightarrow> date \<Rightarrow> jsstring result" where
  "toISOString render (Date (Fin r)) = Inr (render \<lfloor>r\<rfloor>)"
| "toISOString render (Date x) = Inl RangeError"

section \<open>\<open>encodeURIComponent\<close> and \<open>decodeURIComponent\<close>\<close>

definition is_lead_surrogate :: "16 word \<Rightarrow> bool" where
  "is_lead_surrogate c = (0xD800 \<le> c \<and> c \<le> 0xDBFF)"

definition is_trail_surrogate :: "16 word \<Rightarrow> bool" where
  "is_trail_surrogate c = (0xDC00 \<le> c \<and> c \<le> 0xDFFF)"

text \<open>The code point of a surrogate pair.\<close>

definition surrogate_pair :: "16 word \<Rightarrow> 16 word \<Rightarrow> nat" where
  "surrogate_pair c d = (unat c - 0xD800) * 0x400 + (unat d - 0xDC00) + 0x10000"

text \<open>The UTF-16 code units of a code point.\<close>

definition utf16_encode :: "nat \<Rightarrow> jsstring" where
  "utf16_encode V =
     (if V < 0x10000 then [code_unit V]
      else [code_unit (0xD800 + (V - 0x10000) div 0x400),
            code_unit (0xDC00 + (V - 0x10000) mod 0x400)])"

text \<open>The UTF-8 octets of a code point.\<close>

definition utf8_encode :: "nat \<Rightarrow> nat list" where
  "utf8_encode V =
     (if V < 0x80 then [V]
      else if V < 0x800 then [0xC0 + V div 0x40, 0x80 + V mod 0x40]
      else if V < 0x10000 then
        [0xE0 + V div 0x1000, 0x80 + V div 0x40 mod 0x40, 0x80 + V mod 0x40]
      else
        [0xF0 + V div 0x40000, 0x80 + V div 0x1000 mod 0x40, 0x80 + V div 0x40 mod 0x40,
         0x80 + V mod 0x40])"

definition is_continuation :: "nat \<Rightarrow> bool" where
  "is_continuation b = (0x80 \<le> b \<and> b < 0xC0)"

text \<open>
  The code point of a sequence of two to four octets, when the sequence is a valid
  UTF-8 encoding: continuation octets in place, no overlong form, no surrogate, nothing
  above \<open>U+10FFFF\<close>.
\<close>

fun utf8_decode :: "nat list \<Rightarrow> nat option" where
  "utf8_decode [b0, b1] =
     (let V = (b0 - 0xC0) * 0x40 + (b1 - 0x80)
      in if is_continuation b1 \<and> 0x80 \<le> V then Some V else None)"
| "utf8_decode [b0, b1, b2] =
     (let V = (b0 - 0xE0) * 0x1000 + (b1 - 0x80) * 0x40 + (b2 - 0x80)
      in if is_continuation b1 \<and> is_continuation b2 \<and> 0x800 \<le> V
            \<and> \<not> (0xD800 \<le> V \<and> V \<le> 0xDFFF)
         then Some V else None)"
| "utf8_decode [b0, b1, b2, b3] =
     (let V = (b0 - 0xF0) * 0x40000 + (b1 - 0x80) * 0x1000 + (b2 - 0x80) * 0x40 + (b3 - 0x80)
      in if is_continuation b1 \<and> is_continuation b2 \<and> is_continuation b3
            \<and> 0x10000 \<le> V \<and> V \<le> 0x10FFFF
         then Some V else None)"
| "utf8_decode bs = None"

text \<open>The number of leading 1 bits of an octet.\<close>

definition leading_ones :: "nat \<Rightarrow> nat" where
  "leading_ones B =
     (if B < 0x80 then 0 else if B < 0xC0 then 1 else if B < 0xE0 then 2
      else if B < 0xF0 then 3 else if B < 0xF8 then 4 else 5)"

definition hex_char :: "nat \<Rightarrow> 16 word" where
  "hex_char d = (if d < 10 then code_unit (48 + d) else code_unit (55 + d))"

definition hex_value :: "16 word \<Rightarrow> nat option" where
  "hex_value c =
     (let n = unat c in
      if 48 \<le> n \<and> n \<le> 57 then Some (n - 48)
      else if 97 \<le> n \<and> n \<le> 102 then Some (n - 87)
      else if 65 \<le> n \<and> n \<le> 70 then Some (n - 55)
      else None)"

text \<open>\<open>%XY\<close> for an octet, in upper-case digits.\<close>

definition percent :: "nat \<Rightarrow> jsstring" where
  "percent b = [0x25, hex_char (b div 16), hex_char (b mod 16)]"

text \<open>The octet that the first two code units spell in hexadecimal, if they do.\<close>

fun parse_hex_octet :: "jsstring \<Rightarrow> nat option" where
  "parse_hex_octet (x # y # s) =
     (case hex_value x of
        None \<Rightarrow> None
      | Some h \<Rightarrow> (case hex_value y of None \<Rightarrow> None | Some l \<Rightarrow> Some (16 * h + l)))"
| "parse_hex_octet s = None"

text \<open>
  The code units \<open>encodeURIComponent\<close> leaves as they are: ASCII letters and digits
  and \<open>- _ . ! ~ * ' ( )\<close>.
\<close>

definition is_unescaped :: "16 word \<Rightarrow> bool" where
  "is_unescaped c =
     ((0x41 \<le> c \<and> c \<le> 0x5A) \<or> (0x61 \<le> c \<and> c \<le> 0x7A) \<or> (0x30 \<le> c \<and> c \<le> 0x39)
      \<or> c = 0x2D \<or> c = 0x5F \<or> c = 0x2E \<or> c = 0x21 \<or> c = 0x7E \<or> c = 0x2A \<or> c = 0x27
      \<or> c = 0x28 \<or> c = 0x29)"

definition prepend :: "jsstring \<Rightarrow> jsstring result \<Rightarrow> jsstring result" where
  "prepend s r = bind_result r (\<lambda>t. Inr (s @ t))"

text \<open>
  \<open>encodeURIComponent\<close>: an unescaped code unit is copied; any other code point is
  written as the \<open>%XY\<close> of its UTF-8 octets; a surrogate without its partner throws a
  \<open>URIError\<close>.
\<close>

fun encodeURIComponent :: "jsstring \<Rightarrow> jsstring result" where
  "encodeURIComponent [] = Inr []"
| "encodeURIComponent (c # cs) =
     (if is_unescaped c then prepend [c] (encodeURIComponent cs)
      else if is_trail_surrogate c then Inl URIError
      else if is_lead_surrogate c then
        (case cs of
           [] \<Rightarrow> Inl URIError
         | d # ds \<Rightarrow>
             if is_trail_surrogate d
             then prepend (concat (map percent (utf8_encode (surrogate_pair c d))))
                    (encodeURIComponent ds)
             else Inl URIError)
      else prepend (concat (map percent (utf8_encode (unat c)))) (encodeURIComponent cs))"

text \<open>
  The \<open>n\<close> continuation escapes \<open>%XY\<close> that must follow the first octet of a
  multi-octet sequence, and the rest of the string.
\<close>

fun continuation_octets :: "nat \<Rightarrow> jsstring \<Rightarrow> (nat list \<times> jsstring) option" where
  "continuation_octets n s =
     (if n = 0 then Some ([], s)
      else case s of
             [] \<Rightarrow> None
           | c # cs \<Rightarrow>
               if c \<noteq> 0x25 then None
               else case parse_hex_octet cs of
                      None \<Rightarrow> None
                    | Some b \<Rightarrow>
                        (case continuation_octets (n - 1) (drop 2 cs) of
                           None \<Rightarrow> None
                         | Some (bs, r) \<Rightarrow> Some (b # bs, r)))"

declare continuation_octets.simps [simp del]

lemma continuation_octets_length:
  "continuation_octets n s = Some (bs, r) \<Longrightarrow> length r \<le> length s"
proof (induction n s arbitrary: bs r rule: continuation_octets.induct)
  case (1 n s)
  show ?case
  proof (cases "n = 0")
    case True
    with "1.prems" show ?thesis
      by (simp add: continuation_octets.simps [of 0])
  next
    case False
    with "1.prems" obtain c cs b bs' where s: "s = c # cs" and c: "c = 0x25"
      and b: "parse_hex_octet cs = Some b"
      and rec: "continuation_octets (n - 1) (drop 2 cs) = Some (bs', r)"
      by (auto simp: continuation_octets.simps [of n s]
          split: list.splits if_splits option.splits prod.splits)
    from "1.IH" [OF False s _ b rec] c have "length r \<le> length (drop 2 cs)"
      by simp
    with s show ?thesis by simp
  qed
qed

text \<open>
  \<open>decodeURIComponent\<close>: a code unit other than \<open>%\<close> is copied; \<open>%XY\<close> with an octet
  below \<open>0x80\<close> is that code unit; an octet that starts a sequence of two to four is
  read with its continuation escapes and must be valid UTF-8. Everything else throws
  a \<open>URIError\<close>.
\<close>

function decodeURIComponent :: "jsstring \<Rightarrow> jsstring result" where
  "decodeURIComponent [] = Inr []"
| "decodeURIComponent (c # cs) =
     (if c \<noteq> 0x25 then prepend [c] (decodeURIComponent cs)
      else case parse_hex_octet cs of
             None \<Rightarrow> Inl URIError
           | Some B \<Rightarrow>
               (let n = leading_ones B in
                if n = 0 then prepend [code_unit B] (decodeURIComponent (drop 2 cs))
                else if n = 1 \<or> 4 < n then Inl URIError
                else case continuation_octets (n - 1) (drop 2 cs) of
                       None \<Rightarrow> Inl URIError
                     | Some (Octets, rest) \<Rightarrow>
                         (case utf8_decode (B # Octets) of
                            None \<Rightarrow> Inl URIError
                          | Some V \<Rightarrow> prepend (utf16_encode V) (decodeURIComponent rest))))"
  by pat_completeness auto
termination
proof (relation "measure length")
  fix c :: "16 word" and cs B n x Octets rest
  assume "continuation_octets (n - 1) (drop 2 cs) = Some x" "(Octets, rest) = x"
  then have "length rest \<le> length (drop 2 cs)"
    using continuation_octets_length [of "n - 1" "drop 2 cs" Octets rest] by simp
  then show "(rest, c # cs) \<in> measure length"
    by simp
qed simp_all


text \<open>A code point that is not a surrogate.\<close>

definition scalar_value :: "nat \<Rightarrow> bool" where
  "scalar_value V = (V \<le> 0x10FFFF \<and> \<not> (0xD800 \<le> V \<and> V \<le> 0xDFFF))"


section \<open>Array and string methods\<close>

text \<open>
  The first place where \<open>sep\<close> occurs in a string: what is before it and what is after
  it.
\<close>

fun find_separator :: "jsstring \<Rightarrow> jsstring \<Rightarrow> (jsstring \<times> jsstring) option" where
  "find_separator sep [] = (if sep = [] then Some ([], []) else None)"
| "find_separator sep (c # cs) =
     (if take (length sep) (c # cs) = sep then Some ([], drop (length sep) (c # cs))
      else case find_separator sep cs of
             None \<Rightarrow> None
           | Some (before, after) \<Rightarrow> Some (c # before, after))"

lemma find_separator_length:
  "find_separator sep s = Some (before, after) \<Longrightarrow> length after + length sep \<le> length s"
proof (induction s arbitrary: before)
  case Nil
  then show ?case by (simp split: if_splits)
next
  case (Cons c cs)
  show ?case
  proof (cases "take (length sep) (c # cs) = sep")
    case True
    then have "length (take (length sep) (c # cs)) = length sep"
      by simp
    then have "length sep \<le> length (c # cs)"
      by simp
    with True Cons.prems show ?thesis by auto
  next
    case False
    with Cons.prems obtain b where "find_separator sep cs = Some (b, after)"
      by (auto split: option.splits)
    from Cons.IH [OF this] show ?thesis by simp
  qed
qed

text \<open>
  \<open>s.split(sep)\<close> for a non-empty separator: the pieces between the occurrences of
  \<open>sep\<close>, found from left to right; a string without the separator is one piece.
\<close>

function split_pieces :: "jsstring \<Rightarrow> jsstring \<Rightarrow> jsstring list" where
  "split_pieces sep s =
     (if sep = [] then [s]
      else case find_separator sep s of
             None \<Rightarrow> [s]
           | Some (before, after) \<Rightarrow> before # split_pieces sep after)"
  by pat_completeness auto
termination
proof (relation "measure (\<lambda>(sep, s). length s)")
  fix sep s :: jsstring and x before after
  assume "sep \<noteq> []" "find_separator sep s = Some x" "(before, after) = x"
  then have "length after + length sep \<le> length s" and "0 < length sep"
    using find_separator_length [of sep s before after] by simp_all
  then have "length after < length s"
    by linarith
  then show "((sep, after), (sep, s)) \<in> measure (\<lambda>(sep, s). length s)"
    by simp
qed simp

declare split_pieces.simps [simp del]

text \<open>\<open>s.split(sep)\<close>: with the empty separator, the code units of \<open>s\<close> one by one.\<close>

definition split :: "jsstring \<Rightarrow> jsstring \<Rightarrow> jsstring list" where
  "split sep s = (if sep = [] then map (\<lambda>c. [c]) s else split_pieces sep s)"

text \<open>\<open>xs.join(sep)\<close> for an array of strings.\<close>

fun join :: "jsstring \<Rightarrow> jsstring list \<Rightarrow> jsstring" where
  "join sep [] = []"
| "join sep [x] = x"
| "join sep (x # y # ys) = x @ sep @ join sep (y # ys)"

text \<open>
  \<open>xs.map(f)\<close> for an \<open>f\<close> that can throw and reads its first argument only (an arrow
  function with one parameter, or \<open>encodeURIComponent\<close>): the elements are mapped from
  left to right and the first exception ends the call.
\<close>

fun map_result :: "('a \<Rightarrow> 'b result) \<Rightarrow> 'a list \<Rightarrow> 'b list result" where
  "map_result f [] = Inr []"
| "map_result f (x # xs) =
     bind_result (f x) (\<lambda>y. bind_result (map_result f xs) (\<lambda>ys. Inr (y # ys)))"

text \<open>
  \<open>array.map(f)\<close> for a callback \<open>f\<close> that is handed all three arguments
  \<open>(element, index, array)\<close>: \<open>map_callback f array 0 array\<close>.
\<close>

fun map_callback ::
  "('a \<Rightarrow> nat \<Rightarrow> 'a list \<Rightarrow> 'b result) \<Rightarrow> 'a list \<Rightarrow> nat \<Rightarrow> 'a list \<Rightarrow> 'b list result" where
  "map_callback f array index [] = Inr []"
| "map_callback f array index (x # xs) =
     bind_result (f x index array) (\<lambda>y.
     bind_result (map_callback f array (Suc index) xs) (\<lambda>ys. Inr (y # ys)))"

text \<open>\<open>xs.filter(value => value !== null && value !== undefined)\<close>\<close>

fun drop_nullish :: "'a maybe list \<Rightarrow> 'a list" where
  "drop_nullish [] = []"
| "drop_nullish (Val v # xs) = v # drop_nullish xs"
| "drop_nullish (x # xs) = drop_nullish xs"

text \<open>\<open>try { body } catch { handler }\<close>\<close>

definition try_catch :: "'a result \<Rightarrow> 'a result \<Rightarrow> 'a result" where
  "try_catch body handler = (case body of Inl e \<Rightarrow> handler | Inr v \<Rightarrow> Inr v)"

section \<open>Parsers and builders (\<open>src/lib/parsers.ts\<close>)\<close>

text \<open>
  \<open>type Parser<T> = { parse: (value: string) => T | null; serialize?: (value: T) => string }\<close>

  A property that holds a function is modelled by what a call of it returns. The
  source calls the \<open>parse\<close> property in two ways:
  \<^item> as a method with one argument, \<open>this.parse(str)\<close> in \<open>parseServerSide\<close>: the
    field \<open>parse\<close>;
  \<^item> as the callback of \<open>Array.prototype.map\<close>, \<open>.map(itemParser.parse)\<close> in
    \<open>parseAsArrayOf\<close>, where the same function receives the three arguments
    \<open>(item, index, array)\<close> and no \<open>this\<close>: the field \<open>parse_in_map\<close>.

  A function may answer the two kinds of call differently (\<open>parseInt\<close>, taken as
  \<open>parse\<close>, reads the index as a radix), so the two fields are independent.
\<close>

record 'a parser =
  parse :: "jsstring maybe \<Rightarrow> 'a maybe result"
  parse_in_map :: "jsstring \<Rightarrow> nat \<Rightarrow> jsstring list \<Rightarrow> 'a maybe result"
  serialize :: "('a \<Rightarrow> jsstring result) option"

text \<open>
  An arrow function with one parameter, as every built-in \<open>parse\<close> is: it ignores the
  further arguments and has no \<open>this\<close> of its own.
\<close>

definition one_parameter ::
  "(jsstring maybe \<Rightarrow> 'r) \<Rightarrow> jsstring \<Rightarrow> nat \<Rightarrow> jsstring list \<Rightarrow> 'r" where
  "one_parameter f item index array = f (Val item)"

text \<open>
  Modelled from the spec: the \<open>Options\<close> type of \<open>./defs\<close>, which is not among the source
  files. The spec gives its fields as \<open>history: 'push' | 'replace'\<close>, \<open>shallow: boolean\<close>,
  \<open>scroll: boolean\<close> and \<open>throttleMs: number\<close>. An options object is a finite map from
  property names to values, so that object spread is map override.
\<close>

datatype optvalue = OptString string | OptBool bool | OptNumber int | OptUndefined

type_synonym options = "string \<rightharpoonup> optvalue"

text \<open>The argument of \<open>parseServerSide\<close>: \<open>string | string[] | undefined\<close>.\<close>

datatype raw = RawUndefined | RawString jsstring | RawArray "jsstring list"

text \<open>
  The \<open>parseServerSide\<close> property of a builder object is one of two functions: the method
  that \<open>createParser\<close> writes, which reads \<open>this.parse\<close> at the call, or the function that
  \<open>withDefault\<close> writes, which holds the bound \<open>nullableParse\<close> and the default in its
  closure and ignores \<open>this\<close>.
\<close>

datatype 'a pss_method =
    CreateParserMethod
  | WithDefaultMethod "raw \<Rightarrow> 'a maybe result" 'a

text \<open>
  The object \<open>createParser\<close> returns: the parser's properties (\<open>...parser\<close>), the option
  properties that \<open>withOptions\<close> spreads in, \<open>defaultValue\<close> when \<open>withDefault\<close> has set it,
  and the \<open>parseServerSide\<close> method. \<open>withDefault\<close> and \<open>withOptions\<close> are the same two
  functions in every builder and are modelled as functions of \<open>this\<close>.
\<close>

record 'a builder = "'a parser" +
  opts :: options
  defaultValue :: "'a option"
  parseServerSide_prop :: "'a pss_method"

text \<open>A parameter default \<open>value = ''\<close> replaces \<open>undefined\<close> only.\<close>

fun default_value :: "raw \<Rightarrow> raw" where
  "default_value RawUndefined = RawString []"
| "default_value v = v"

text \<open>\<open>value[0]\<close>: \<open>undefined\<close> on the empty array.\<close>

fun first_element :: "jsstring list \<Rightarrow> jsstring maybe" where
  "first_element [] = Undefined"
| "first_element (x # xs) = Val x"

text \<open>
  \<^verbatim>\<open>
  parseServerSide(value = '') {
    let str = ''
    if (Array.isArray(value)) { str = value[0] }
    if (typeof value === 'string') { str = value }
    return this.parse(str)
  }\<close>
\<close>

definition parseServerSide :: "('a, 'b) parser_scheme \<Rightarrow> raw \<Rightarrow> 'a maybe result" where
  "parseServerSide this value0 =
     (let v = default_value value0;
          str0 = Val [];
          str1 = (case v of RawArray xs \<Rightarrow> first_element xs | _ \<Rightarrow> str0);
          str2 = (case v of RawString s \<Rightarrow> Val s | _ \<Rightarrow> str1)
      in parse this str2)"

text \<open>
  \<^verbatim>\<open>parseServerSide(value = '') { return nullableParse(value) ?? defaultValue }\<close>
\<close>

definition parseServerSide_withDefault ::
  "(raw \<Rightarrow> 'a maybe result) \<Rightarrow> 'a \<Rightarrow> raw \<Rightarrow> 'a maybe result" where
  "parseServerSide_withDefault nullableParse d value0 =
     bind_result (nullableParse (default_value value0))
       (\<lambda>r. Inr (nullish_coalesce r (Val d)))"

text \<open>The method call \<open>b.parseServerSide(value)\<close>.\<close>

definition call_parseServerSide :: "'a builder \<Rightarrow> raw \<Rightarrow> 'a maybe result" where
  "call_parseServerSide b v =
     (case parseServerSide_prop b of
        CreateParserMethod \<Rightarrow> parseServerSide b v
      | WithDefaultMethod nullableParse d \<Rightarrow> parseServerSide_withDefault nullableParse d v)"

text \<open>
  \<^verbatim>\<open>
  withDefault(defaultValue) {
    const nullableParse = this.parseServerSide.bind(this)
    return { ...this, defaultValue, parseServerSide(value = '') { ... } }
  }\<close>
\<close>

definition withDefault :: "'a builder \<Rightarrow> 'a \<Rightarrow> 'a builder" where
  "withDefault this d =
     this\<lparr>defaultValue := Some d,
          parseServerSide_prop := WithDefaultMethod (call_parseServerSide this) d\<rparr>"

text \<open>\<^verbatim>\<open>withOptions(options: Options) { return { ...this, ...options } }\<close>\<close>

definition withOptions :: "'a builder \<Rightarrow> options \<Rightarrow> 'a builder" where
  "withOptions this options = this\<lparr>opts := opts this ++ options\<rparr>"

definition createParser :: "'a parser \<Rightarrow> 'a builder" where
  "createParser p =
     \<lparr>parse = parse p, parse_in_map = parse_in_map p, serialize = serialize p,
      opts = Map.empty, defaultValue = None, parseServerSide_prop = CreateParserMethod\<rparr>"

subsection \<open>\<open>parseAsString\<close>\<close>

text \<open>\<^verbatim>\<open>createParser({ parse: v => v, serialize: v => `${v}` })\<close>\<close>

definition parseAsString :: "jsstring builder" where
  "parseAsString =
     createParser \<lparr>parse = (\<lambda>v. Inr v), parse_in_map = one_parameter (\<lambda>v. Inr v),
                   serialize = Some (\<lambda>v. Inr v)\<rparr>"

subsection \<open>\<open>parseAsInteger\<close>\<close>

text \<open>
  \<^verbatim>\<open>
  createParser({
    parse: v => { const int = parseInt(v); if (Number.isNaN(int)) { return null }; return int },
    serialize: v => Math.round(v).toFixed()
  })\<close>
\<close>

definition parseAsInteger_parse :: "jsstring maybe \<Rightarrow> number maybe result" where
  "parseAsInteger_parse v =
     (let int = parseInt (ToString v) in if int = NaN then Inr Null else Inr (Val int))"

definition parseAsInteger :: "(real \<Rightarrow> jsstring) \<Rightarrow> number builder" where
  "parseAsInteger ntos =
     createParser \<lparr>parse = parseAsInteger_parse,
                   parse_in_map = one_parameter parseAsInteger_parse,
                   serialize = Some (\<lambda>v. Inr (toFixed ntos (Math_round v)))\<rparr>"

subsection \<open>\<open>parseAsFloat\<close>\<close>



subsection \<open>\<open>parseAsBoolean\<close>\<close>


subsection \<open>\<open>parseAsTimestamp\<close> and \<open>parseAsIsoDateTime\<close>\<close>

text \<open>
  \<^verbatim>\<open>
  createParser({
    parse: v => new Date(parseInt(v)),
    serialize: (v: Date) => v.valueOf().toString()
  })\<close>
\<close>

definition parseAsTimestamp_parse :: "jsstring maybe \<Rightarrow> date maybe result" where
  "parseAsTimestamp_parse v = Inr (Val (new_Date_number (parseInt (ToString v))))"

definition parseAsTimestamp :: "(real \<Rightarrow> jsstring) \<Rightarrow> date builder" where
  "parseAsTimestamp ntos =
     createParser \<lparr>parse = parseAsTimestamp_parse,
                   parse_in_map = one_parameter parseAsTimestamp_parse,
                   serialize = Some (\<lambda>v. Inr (Number_toString ntos (valueOf v)))\<rparr>"

text \<open>
  \<^verbatim>\<open>
  createParser({
    parse: v => new Date(v),
    serialize: (v: Date) => v.toISOString()
  })\<close>
\<close>

definition parseAsIsoDateTime_parse :: "(jsstring \<Rightarrow> number) \<Rightarrow> jsstring maybe \<Rightarrow> date maybe result" where
  "parseAsIsoDateTime_parse Date_parse v = Inr (Val (new_Date_value Date_parse v))"

definition parseAsIsoDateTime :: "(jsstring \<Rightarrow> number) \<Rightarrow> (int \<Rightarrow> jsstring) \<Rightarrow> date builder" where
  "parseAsIsoDateTime Date_parse render =
     createParser \<lparr>parse = parseAsIsoDateTime_parse Date_parse,
                   parse_in_map = one_parameter (parseAsIsoDateTime_parse Date_parse),
                   serialize = Some (toISOString render)\<rparr>"

subsection \<open>\<open>parseAsStringEnum\<close>\<close>



subsection \<open>\<open>parseAsJson\<close>\<close>

text \<open>
  \<^verbatim>\<open>
  export function parseAsJson<T>(parser?: (value: unknown) => T) {
    return createParser({
      parse: query => {
        try {
          const obj = JSON.parse(decodeURIComponent(query))
          if (typeof parser === 'function') { return parser(obj) } else { return obj as T }
        } catch { return null }
      },
      serialize: value => encodeURIComponent(JSON.stringify(value))
    })
  }\<close>
  \<open>JSON.parse\<close> and \<open>JSON.stringify\<close> are the platform's: the parameters \<open>JSON_parse\<close>
  (a \<open>SyntaxError\<close> or a value, \<open>null\<close> included) and \<open>JSON_stringify\<close> (a \<open>TypeError\<close>,
  a string or \<open>undefined\<close>). The type \<open>'j\<close> is that of the values JSON text denotes; the
  optional \<open>parser\<close> maps such a value to one, or throws.
\<close>

definition parseAsJson_parse ::
  "(jsstring \<Rightarrow> 'j maybe result) \<Rightarrow> ('j maybe \<Rightarrow> 'j maybe result) option
   \<Rightarrow> jsstring maybe \<Rightarrow> 'j maybe result" where
  "parseAsJson_parse JSON_parse parser query =
     try_catch
       (bind_result (decodeURIComponent (ToString query)) (\<lambda>text.
        bind_result (JSON_parse text) (\<lambda>obj.
          case parser of Some f \<Rightarrow> f obj | None \<Rightarrow> Inr obj)))
       (Inr Null)"

definition parseAsJson ::
  "(jsstring \<Rightarrow> 'j maybe result) \<Rightarrow> ('j \<Rightarrow> jsstring maybe result)
   \<Rightarrow> ('j maybe \<Rightarrow> 'j maybe result) option \<Rightarrow> 'j builder" where
  "parseAsJson JSON_parse JSON_stringify parser =
     createParser
       \<lparr>parse = parseAsJson_parse JSON_parse parser,
        parse_in_map = one_parameter (parseAsJson_parse JSON_parse parser),
        serialize = Some (\<lambda>v. bind_result (JSON_stringify v)
                                 (\<lambda>text. encodeURIComponent (ToString text)))\<rparr>"

subsection \<open>\<open>parseAsArrayOf\<close>\<close>

text \<open>
  \<^verbatim>\<open>
  export function parseAsArrayOf<ItemType>(itemParser: Parser<ItemType>, separator = ',') {
    return createParser({
      parse: query => {
        if (query === '') { return [] as ItemType[] }
        return query
          .split(separator)
          .map(item => decodeURIComponent(item))
          .map(itemParser.parse)
          .filter(value => value !== null && value !== undefined) as ItemType[]
      },
      serialize: values =>
        values
          .map<string>(value => {
            if (itemParser.serialize) { return itemParser.serialize(value) }
            return `${value}`
          })
          .map(encodeURIComponent)
          .join(separator)
    })
  }\<close>
  The parameter \<open>to_string\<close> is the string conversion of the template literal for the
  item type. A \<open>query\<close> that is \<open>undefined\<close> or \<open>null\<close> has no \<open>split\<close> method: a
  \<open>TypeError\<close>.
\<close>

definition default_separator :: "jsstring option \<Rightarrow> jsstring" where
  "default_separator separator = (case separator of None \<Rightarrow> js '','' | Some s \<Rightarrow> s)"

fun parseAsArrayOf_parse ::
  "('a, 'b) parser_scheme \<Rightarrow> jsstring \<Rightarrow> jsstring maybe \<Rightarrow> 'a list maybe result" where
  "parseAsArrayOf_parse itemParser separator (Val query) =
     (if query = [] then Inr (Val [])
      else
        bind_result (map_result decodeURIComponent (split separator query)) (\<lambda>items.
        bind_result (map_callback (parse_in_map itemParser) items 0 items) (\<lambda>values.
          Inr (Val (drop_nullish values)))))"
| "parseAsArrayOf_parse itemParser separator query = Inl TypeError"

definition item_serialize ::
  "('a \<Rightarrow> jsstring) \<Rightarrow> ('a, 'b) parser_scheme \<Rightarrow> 'a \<Rightarrow> jsstring result" where
  "item_serialize to_string itemParser v =
     (case serialize itemParser of Some f \<Rightarrow> f v | None \<Rightarrow> Inr (to_string v))"

definition parseAsArrayOf_serialize ::
  "('a \<Rightarrow> jsstring) \<Rightarrow> ('a, 'b) parser_scheme \<Rightarrow> jsstring \<Rightarrow> 'a list \<Rightarrow> jsstring result" where
  "parseAsArrayOf_serialize to_string itemParser separator values =
     bind_result (map_result (item_serialize to_string itemParser) values) (\<lambda>strings.
     bind_result (map_result encodeURIComponent strings) (\<lambda>encoded.
       Inr (join separator encoded)))"

definition parseAsArrayOf ::
  "('a \<Rightarrow> jsstring) \<Rightarrow> ('a, 'b) parser_scheme \<Rightarrow> jsstring option \<Rightarrow> 'a list builder" where
  "parseAsArrayOf to_string itemParser separator =
     createParser
       \<lparr>parse = parseAsArrayOf_parse itemParser (default_separator separator),
        parse_in_map =
          one_parameter (parseAsArrayOf_parse itemParser (default_separator separator)),
        serialize =
          Some (parseAsArrayOf_serialize to_string itemParser (default_separator separator))\<rparr>"

subsection \<open>Serialize, then parse\<close>

text \<open>
  \<open>p.parse(p.serialize(v))\<close>. Calling the absent optional \<open>serialize\<close> is a
  \<open>TypeError\<close>.
\<close>

definition parse_serialize :: "('a, 'b) parser_scheme \<Rightarrow> 'a \<Rightarrow> 'a maybe result" where
  "parse_serialize p v =
     (case serialize p of
        None \<Rightarrow> Inl TypeError
      | Some f \<Rightarrow> bind_result (f v) (\<lambda>s. parse p (Val s)))"



section \<open>The testing adapter (\<open>packages/nuqs/src/adapters/testing.ts\<close>)\<close>

text \<open>A \<open>URLSearchParams\<close> object: its name-value pairs, in order.\<close>

type_synonym url_search_params = "(jsstring \<times> jsstring) list"

text \<open>\<open>searchParams?: string | Record<string, string> | URLSearchParams\<close>\<close>

datatype search_params_init =
    InitString jsstring
  | InitRecord "(jsstring \<times> jsstring) list"
  | InitParams url_search_params

text \<open>
  \<open>type UrlUpdateEvent = { searchParams, queryString, options }\<close>. The type of
  \<open>options\<close>, \<open>Required<AdapterOptions>\<close>, is declared in \<open>./defs\<close>, which is not among
  the source files: the type parameter \<open>'o\<close>.
\<close>

record 'o UrlUpdateEvent =
  searchParams :: url_search_params
  queryString :: jsstring
  options :: 'o

text \<open>
  The props of the component, without \<open>children\<close>. \<open>onUrlUpdate\<close> is a callback run for
  its effect: a function on the state \<open>'s\<close> of whoever observes.
\<close>

record ('o, 's) TestingAdapterProps =
  searchParams_prop :: "search_params_init option"
  onUrlUpdate :: "('o UrlUpdateEvent \<Rightarrow> 's \<Rightarrow> 's) option"
  rateLimitFactor_prop :: "int option"

record ('o, 's) AdapterInterface =
  adapter_searchParams :: url_search_params
  updateUrl :: "url_search_params \<Rightarrow> 'o \<Rightarrow> 's \<Rightarrow> 's"
  rateLimitFactor :: int

text \<open>
  \<open>new URLSearchParams(init)\<close>: no argument gives no pairs; a string loses a leading
  \<open>?\<close> and is read by the platform's parser of query strings (the parameter
  \<open>parse_query\<close>); an object gives its entries; a \<open>URLSearchParams\<close> gives a copy.
\<close>

fun new_URLSearchParams ::
  "(jsstring \<Rightarrow> url_search_params) \<Rightarrow> search_params_init option \<Rightarrow> url_search_params" where
  "new_URLSearchParams parse_query None = []"
| "new_URLSearchParams parse_query (Some (InitString s)) =
     parse_query (case s of [] \<Rightarrow> [] | c # cs \<Rightarrow> if c = 0x3F then cs else s)"
| "new_URLSearchParams parse_query (Some (InitRecord entries)) = entries"
| "new_URLSearchParams parse_query (Some (InitParams ps)) = ps"

text \<open>
  \<^verbatim>\<open>
  const useAdapter = (): AdapterInterface => ({
    searchParams: new URLSearchParams(props.searchParams),
    updateUrl(search, options) {
      props.onUrlUpdate?.({
        searchParams: search,
        queryString: renderQueryString(search),
        options
      })
    },
    rateLimitFactor: props.rateLimitFactor ?? 0
  })\<close>
  \<open>renderQueryString\<close> is defined in \<open>../url-encoding\<close>, which is not among the source
  files: a parameter.
\<close>

definition useAdapter ::
  "(jsstring \<Rightarrow> url_search_params) \<Rightarrow> (url_search_params \<Rightarrow> jsstring)
   \<Rightarrow> ('o, 's) TestingAdapterProps \<Rightarrow> ('o, 's) AdapterInterface" where
  "useAdapter parse_query renderQueryString props =
     \<lparr>adapter_searchParams = new_URLSearchParams parse_query (searchParams_prop props),
      updateUrl = (\<lambda>search resolved.
        case onUrlUpdate props of
          None \<Rightarrow> (\<lambda>observer. observer)
        | Some callback \<Rightarrow>
            callback \<lparr>searchParams = search, queryString = renderQueryString search,
                      options = resolved\<rparr>),
      rateLimitFactor = (case rateLimitFactor_prop props of None \<Rightarrow> 0 | Some f \<Rightarrow> f)\<rparr>"

text \<open>
  The component itself: it resets the update queue on mount unless
  \<open>resetUrlUpdateQueueOnMount\<close> is \<open>false\<close> (\<open>resetQueue\<close> is defined in
  \<open>../update-queue\<close>, not among the source files: a parameter on the queue's state), and
  provides \<open>useAdapter\<close> to its children.
\<close>

definition NuqsTestingAdapter ::
  "('q \<Rightarrow> 'q) \<Rightarrow> (jsstring \<Rightarrow> url_search_params) \<Rightarrow> (url_search_params \<Rightarrow> jsstring)
   \<Rightarrow> bool option \<Rightarrow> ('o, 's) TestingAdapterProps \<Rightarrow> 'q \<Rightarrow> 'q \<times> ('o, 's) AdapterInterface" where
  "NuqsTestingAdapter resetQueue parse_query renderQueryString resetUrlUpdateQueueOnMount props queue =
     ((if (case resetUrlUpdateQueueOnMount of None \<Rightarrow> True | Some b \<Rightarrow> b)
       then resetQueue queue else queue),
      useAdapter parse_query renderQueryString props)"

text \<open>An observer that keeps the events it is given, in order.\<close>

definition record_event :: "'o UrlUpdateEvent \<Rightarrow> 'o UrlUpdateEvent list \<Rightarrow> 'o UrlUpdateEvent list" where
  "record_event event events = events @ [event]"

text \<open>A sequence of \<open>updateUrl\<close> calls on an adapter.\<close>

fun update_calls ::
  "('o, 's) AdapterInterface \<Rightarrow> (url_search_params \<times> 'o) list \<Rightarrow> 's \<Rightarrow> 's" where
  "update_calls adapter [] observer = observer"
| "update_calls adapter ((search, resolved) # calls) observer =
     update_calls adapter calls (updateUrl adapter search resolved observer)"

section \<open>Properties of the builder\<close>

lemma parseServerSide_default_value:
  "parseServerSide this (default_value v) = parseServerSide this v"
  by (cases v) (simp_all add: parseServerSide_def)

lemma call_parseServerSide_default_value:
  "call_parseServerSide b (default_value v) = call_parseServerSide b v"
  by (cases v)
     (simp_all add: call_parseServerSide_def parseServerSide_def parseServerSide_withDefault_def
        split: pss_method.splits)

lemma call_parseServerSide_createParser:
  "call_parseServerSide (createParser p) v = parseServerSide p v"
  by (simp add: call_parseServerSide_def createParser_def parseServerSide_def)

lemma call_parseServerSide_withDefault:
  "call_parseServerSide (withDefault b d) v =
     bind_result (call_parseServerSide b v) (\<lambda>r. Inr (nullish_coalesce r (Val d)))"
  by (simp add: call_parseServerSide_def withDefault_def parseServerSide_withDefault_def
      call_parseServerSide_default_value [unfolded call_parseServerSide_def])

lemma call_parseServerSide_withOptions:
  "call_parseServerSide (withOptions b os) v = call_parseServerSide b v"
  by (simp add: call_parseServerSide_def withOptions_def parseServerSide_def
      split: pss_method.splits)

text \<open>
  C3. For every builder \<open>b\<close> (one made by \<open>createParser\<close>, or derived from it) and every
  default \<open>d\<close>, \<open>b.withDefault(d).parseServerSide(raw)\<close> never returns \<open>null\<close> or
  \<open>undefined\<close>: it returns what \<open>b.parseServerSide(raw)\<close> returns when that is neither
  \<open>null\<close> nor \<open>undefined\<close>, and \<open>d\<close> otherwise (an exception of the underlying call is
  passed on); the new builder has \<open>d\<close> as its \<open>defaultValue\<close>.
\<close>

theorem withDefault_parseServerSide:
  "call_parseServerSide (withDefault b d) v \<noteq> Inr Null
   \<and> call_parseServerSide (withDefault b d) v \<noteq> Inr Undefined
   \<and> call_parseServerSide (withDefault b d) v =
       (case call_parseServerSide b v of
          Inl e \<Rightarrow> Inl e
        | Inr (Val x) \<Rightarrow> Inr (Val x)
        | Inr Null \<Rightarrow> Inr (Val d)
        | Inr Undefined \<Rightarrow> Inr (Val d))
   \<and> defaultValue (withDefault b d) = Some d"
proof -
  have "defaultValue (withDefault b d) = Some d"
    by (simp add: withDefault_def)
  moreover have "call_parseServerSide (withDefault b d) v =
       (case call_parseServerSide b v of
          Inl e \<Rightarrow> Inl e
        | Inr (Val x) \<Rightarrow> Inr (Val x)
        | Inr Null \<Rightarrow> Inr (Val d)
        | Inr Undefined \<Rightarrow> Inr (Val d))"
    by (simp add: call_parseServerSide_withDefault bind_result_def
        split: sum.splits maybe.splits)
  ultimately show ?thesis
    by (auto split: sum.splits maybe.splits)
qed

text \<open>
  C8. \<open>b.withOptions(options)\<close> is a builder whose option properties are \<open>options\<close>
  merged over those of \<open>b\<close>, property by property; \<open>parse\<close>, \<open>serialize\<close>, \<open>defaultValue\<close>
  and the behaviour of \<open>parseServerSide\<close> are those of \<open>b\<close>. Builders are values: the
  function builds a new object from \<open>this\<close> and assigns to nothing.
\<close>

theorem withOptions_merges:
  "opts (withOptions b os) k = (case os k of Some v \<Rightarrow> Some v | None \<Rightarrow> opts b k)
   \<and> parse (withOptions b os) = parse b
   \<and> serialize (withOptions b os) = serialize b
   \<and> defaultValue (withOptions b os) = defaultValue b
   \<and> call_parseServerSide (withOptions b os) = call_parseServerSide b"
proof -
  have "opts (withOptions b os) k = (case os k of Some v \<Rightarrow> Some v | None \<Rightarrow> opts b k)"
    by (simp add: withOptions_def map_add_def split: option.splits)
  moreover have "call_parseServerSide (withOptions b os) = call_parseServerSide b"
    by (rule ext) (rule call_parseServerSide_withOptions)
  ultimately show ?thesis
    by (simp add: withOptions_def)
qed

text \<open>
  C10. On the empty array \<open>parseServerSide\<close> hands \<open>undefined\<close> (the first element of
  an empty array) to \<open>parse\<close>, not the empty string: \<open>parseAsString.parseServerSide([])\<close>
  is \<open>undefined\<close>, while \<open>parseServerSide(undefined)\<close> parses the empty string.
\<close>

theorem parseServerSide_empty_array:
  "call_parseServerSide (createParser p) (RawArray []) = parse p Undefined
   \<and> call_parseServerSide (createParser p) RawUndefined = parse p (Val [])
   \<and> call_parseServerSide parseAsString (RawArray []) = Inr Undefined
   \<and> call_parseServerSide parseAsString RawUndefined = Inr (Val [])"
  by (simp add: parseAsString_def call_parseServerSide_createParser parseServerSide_def)

section \<open>The date codecs\<close>

lemmas parseInt_eval =
  parseInt_def js_def code_unit_def is_whitespace_def is_radix_digit_def digit_value_def digits_value_def
  to_double_def

lemma TimeClip_NaN: "TimeClip NaN = NaN"
  by simp

lemma parse_parseAsTimestamp:
  "parse (parseAsTimestamp ntos) (Val s) = Inr (Val (Date (TimeClip (parseInt s))))"
  by (simp add: parseAsTimestamp_def createParser_def parseAsTimestamp_parse_def
      new_Date_number_def)

lemma parse_parseAsIsoDateTime:
  "parse (parseAsIsoDateTime Date_parse render) (Val s) = Inr (Val (Date (TimeClip (Date_parse s))))"
  by (simp add: parseAsIsoDateTime_def createParser_def parseAsIsoDateTime_parse_def)

text \<open>
  C5. On every input string \<open>parseAsTimestamp.parse\<close> and \<open>parseAsIsoDateTime.parse\<close>
  return a \<open>Date\<close> object, never \<open>null\<close> (nor \<open>undefined\<close>, nor an exception). When the
  input is malformed (\<open>parseInt\<close>, respectively \<open>Date.parse\<close>, gives \<open>NaN\<close>) the object
  is the invalid date, whose time value is \<open>NaN\<close>.
\<close>

theorem date_parsers_never_null:
  "(\<exists>d. parse (parseAsTimestamp ntos) (Val s) = Inr (Val d))
   \<and> (\<exists>d. parse (parseAsIsoDateTime Date_parse render) (Val s) = Inr (Val d))
   \<and> (parseInt s = NaN \<longrightarrow> parse (parseAsTimestamp ntos) (Val s) = Inr (Val (Date NaN)))
   \<and> (Date_parse s = NaN \<longrightarrow>
        parse (parseAsIsoDateTime Date_parse render) (Val s) = Inr (Val (Date NaN)))"
  by (simp add: parse_parseAsTimestamp parse_parseAsIsoDateTime)

theorem date_parsers_never_null_witness:
  "parseInt (js ''abc'') = NaN
   \<and> (\<forall>ntos. parse (parseAsTimestamp ntos) (Val (js ''abc'')) = Inr (Val (Date NaN)))
   \<and> (\<forall>render. parse (parseAsIsoDateTime (\<lambda>s. NaN) render) (Val (js ''abc''))
         = Inr (Val (Date NaN)))"
proof -
  have nan: "parseInt (js ''abc'') = NaN"
    by (simp add: parseInt_eval)
  have "parse (parseAsTimestamp ntos) (Val (js ''abc'')) = Inr (Val (Date NaN))"
    and "parse (parseAsIsoDateTime (\<lambda>s. NaN) render) (Val (js ''abc'')) = Inr (Val (Date NaN))"
    for ntos render
    using date_parsers_never_null [of ntos "js ''abc''" "\<lambda>s. NaN" render] nan by simp_all
  with nan show ?thesis by simp
qed

section \<open>\<open>decodeURIComponent\<close> undoes \<open>encodeURIComponent\<close>\<close>

lemma unat_code_unit: "n < 65536 \<Longrightarrow> unat (code_unit n) = n"
  by (simp add: code_unit_def unat_of_nat take_bit_nat_eq_self)

lemma code_unit_unat: "code_unit (unat c) = c"
  by (simp add: code_unit_def)

lemma hex_value_hex_char: "d < 16 \<Longrightarrow> hex_value (hex_char d) = Some d"
  by (auto simp: hex_value_def hex_char_def unat_code_unit Let_def)

lemma parse_hex_octet_percent:
  "b < 256 \<Longrightarrow> parse_hex_octet (hex_char (b div 16) # hex_char (b mod 16) # s) = Some b"
  by (simp add: hex_value_hex_char less_mult_imp_div_less)

lemma unescaped_not_percent: "is_unescaped c \<Longrightarrow> c \<noteq> 0x25"
  by (auto simp: is_unescaped_def)




lemma utf8_encode_octets: "V \<le> 0x10FFFF \<Longrightarrow> b \<in> set (utf8_encode V) \<Longrightarrow> b < 256"
  by (auto simp: utf8_encode_def split: if_splits)

lemma recompose2: "(V::nat) div 64 * 64 + V mod 64 = V"
  by simp

lemma recompose3: "(V::nat) div 4096 * 4096 + V div 64 mod 64 * 64 + V mod 64 = V"
proof -
  define W where "W = V div 64"
  define a where "a = W div 64"
  define b where "b = W mod 64"
  define c where "c = V mod 64"
  have d: "V div 4096 = a"
    unfolding a_def W_def using div_mult2_eq [of V 64 64] by simp
  have W: "a * 64 + b = W"
    unfolding a_def b_def by (rule recompose2)
  have V: "W * 64 + c = V"
    unfolding W_def c_def by (rule recompose2)
  have "a * 4096 + b * 64 + c = V"
    using W V by linarith
  then show ?thesis
    unfolding d unfolding a_def b_def c_def W_def .
qed

lemma recompose4:
  "(V::nat) div 262144 * 262144 + V div 4096 mod 64 * 4096 + V div 64 mod 64 * 64 + V mod 64 = V"
proof -
  define W where "W = V div 64"
  define a where "a = W div 4096"
  define b where "b = W div 64 mod 64"
  define c where "c = W mod 64"
  define e where "e = V mod 64"
  have d: "V div 262144 = a"
    unfolding a_def W_def using div_mult2_eq [of V 64 4096] by simp
  have d': "V div 4096 = W div 64"
    unfolding W_def using div_mult2_eq [of V 64 64] by simp
  have W: "a * 4096 + b * 64 + c = W"
    unfolding a_def b_def c_def by (rule recompose3)
  have V: "W * 64 + e = V"
    unfolding W_def e_def by (rule recompose2)
  have "a * 262144 + b * 4096 + c * 64 + e = V"
    using W V by linarith
  then show ?thesis
    unfolding d d' unfolding a_def b_def c_def e_def W_def .
qed

lemma utf8_decode_encode:
  assumes "scalar_value V" "0x80 \<le> V"
  shows "utf8_decode (utf8_encode V) = Some V"
proof -
  from assms(1) have le: "V \<le> 0x10FFFF" and ns: "\<not> (0xD800 \<le> V \<and> V \<le> 0xDFFF)"
    by (simp_all add: scalar_value_def)
  have cont: "is_continuation (0x80 + n mod 0x40)" for n :: nat
    by (simp add: is_continuation_def)
  consider "V < 0x800" | "0x800 \<le> V" "V < 0x10000" | "0x10000 \<le> V"
    by linarith
  then show ?thesis
  proof cases
    case 1
    with assms(2) have enc: "utf8_encode V = [0xC0 + V div 0x40, 0x80 + V mod 0x40]"
      by (simp add: utf8_encode_def)
    show ?thesis
      using assms(2) cont [of V] recompose2 [of V]
      by (simp add: enc)
  next
    case 2
    then have enc: "utf8_encode V =
        [0xE0 + V div 0x1000, 0x80 + V div 0x40 mod 0x40, 0x80 + V mod 0x40]"
      by (simp add: utf8_encode_def)
    show ?thesis
      using 2 ns cont [of V] cont [of "V div 0x40"] recompose3 [of V]
      by (simp add: enc)
  next
    case 3
    then have enc: "utf8_encode V =
        [0xF0 + V div 0x40000, 0x80 + V div 0x1000 mod 0x40, 0x80 + V div 0x40 mod 0x40,
         0x80 + V mod 0x40]"
      by (simp add: utf8_encode_def)
    show ?thesis
      using 3 le cont [of V] cont [of "V div 0x40"] cont [of "V div 0x1000"] recompose4 [of V]
      by (simp add: enc)
  qed
qed

lemma utf8_encode_leading:
  "V \<le> 0x10FFFF \<Longrightarrow> 0x80 \<le> V \<Longrightarrow>
   \<exists>b bs. utf8_encode V = b # bs \<and> leading_ones b = Suc (length bs) \<and> bs \<noteq> [] \<and> length bs \<le> 3"
  by (auto simp: utf8_encode_def leading_ones_def)

lemma continuation_octets_percent:
  "\<forall>b \<in> set bs. b < 256 \<Longrightarrow>
   continuation_octets (length bs) (concat (map percent bs) @ t) = Some (bs, t)"
proof (induction bs)
  case Nil
  show ?case by (simp add: continuation_octets.simps [of 0])
next
  case (Cons b bs)
  then show ?case
    by (simp add: continuation_octets.simps [of "Suc (length bs)"] percent_def [of b]
        parse_hex_octet_percent del: parse_hex_octet.simps)
qed

lemma decode_single:
  "b < 0x80 \<Longrightarrow> decodeURIComponent (percent b @ t) = prepend [code_unit b] (decodeURIComponent t)"
  by (simp add: percent_def parse_hex_octet_percent leading_ones_def del: parse_hex_octet.simps)

lemma decode_multi:
  assumes "scalar_value V" "0x80 \<le> V"
  shows "decodeURIComponent (concat (map percent (utf8_encode V)) @ t)
         = prepend (utf16_encode V) (decodeURIComponent t)"
proof -
  from assms have le: "V \<le> 0x10FFFF" by (simp add: scalar_value_def)
  from utf8_encode_leading [OF le assms(2)] obtain b bs where
    enc: "utf8_encode V = b # bs" and lead: "leading_ones b = Suc (length bs)"
    and ne: "bs \<noteq> []" and len: "length bs \<le> 3"
    by blast
  have small: "\<forall>x \<in> set (b # bs). x < 256"
    using utf8_encode_octets [OF le] enc by auto
  then have b: "b < 256" and bs: "\<forall>x \<in> set bs. x < 256" by simp_all
  have dec: "utf8_decode (b # bs) = Some V"
    using utf8_decode_encode [OF assms] enc by simp
  have cont: "continuation_octets (length bs) (concat (map percent bs) @ t) = Some (bs, t)"
    by (rule continuation_octets_percent [OF bs])
  from ne have pos: "0 < length bs" by simp
  show ?thesis
    using pos len
    by (simp add: enc percent_def [of b] parse_hex_octet_percent [OF b] lead cont dec
        del: parse_hex_octet.simps)
qed

lemma decode_code_point:
  assumes "scalar_value V"
  shows "decodeURIComponent (concat (map percent (utf8_encode V)) @ t)
         = prepend (utf16_encode V) (decodeURIComponent t)"
proof (cases "V < 0x80")
  case True
  then have "utf8_encode V = [V]" by (simp add: utf8_encode_def)
  with True show ?thesis
    using decode_single [of V t] by (simp add: utf16_encode_def)
next
  case False
  with assms show ?thesis by (simp add: decode_multi)
qed


lemma unat_lt_65536: "unat (c :: 16 word) < 65536"
  using unsigned_less [of c, where ?'a = nat] by simp

lemma utf16_encode_unat: "utf16_encode (unat (c :: 16 word)) = [c]"
  by (simp add: utf16_encode_def unat_lt_65536 code_unit_unat)

lemma surrogate_pair_bounds:
  assumes "is_lead_surrogate c" "is_trail_surrogate d"
  shows "0x10000 \<le> surrogate_pair c d" "surrogate_pair c d \<le> 0x10FFFF"
  using assms
  unfolding is_lead_surrogate_def is_trail_surrogate_def surrogate_pair_def word_le_nat_alt
  by (simp, simp, arith)

lemma utf16_encode_surrogate_pair:
  assumes "is_lead_surrogate c" "is_trail_surrogate d"
  shows "utf16_encode (surrogate_pair c d) = [c, d]"
proof -
  from assms have c: "0xD800 \<le> unat c" "unat c \<le> 0xDBFF" and d: "0xDC00 \<le> unat d" "unat d \<le> 0xDFFF"
    by (simp_all add: is_lead_surrogate_def is_trail_surrogate_def word_le_nat_alt)
  define x where "x = unat c - 0xD800"
  define y where "y = unat d - 0xDC00"
  have y: "y < 0x400" using d by (simp add: y_def)
  have sp: "surrogate_pair c d - 0x10000 = x * 0x400 + y"
    by (simp add: surrogate_pair_def x_def y_def)
  have "(x * 0x400 + y) div 0x400 = x" "(x * 0x400 + y) mod 0x400 = y"
    using y by simp_all
  moreover have "0xD800 + x = unat c" "0xDC00 + y = unat d"
    using c d by (simp_all add: x_def y_def)
  ultimately show ?thesis
    using surrogate_pair_bounds(1) [OF assms]
    by (simp add: utf16_encode_def sp code_unit_unat)
qed

lemma scalar_value_unat:
  "\<not> is_lead_surrogate c \<Longrightarrow> \<not> is_trail_surrogate c \<Longrightarrow> scalar_value (unat c)"
  using unat_lt_65536 [of c]
  by (auto simp: scalar_value_def is_lead_surrogate_def is_trail_surrogate_def word_le_nat_alt)

lemma scalar_value_surrogate_pair:
  "is_lead_surrogate c \<Longrightarrow> is_trail_surrogate d \<Longrightarrow> scalar_value (surrogate_pair c d)"
  using surrogate_pair_bounds [of c d] by (simp add: scalar_value_def)

lemma prepend_Inr: "prepend s (Inr t) = Inr (s @ t)"
  by (simp add: prepend_def bind_result_def)

lemma prepend_eq_Inr: "prepend s r = Inr e \<longleftrightarrow> (\<exists>t. r = Inr t \<and> e = s @ t)"
  by (cases r) (auto simp: prepend_def bind_result_def)

lemma decode_encode:
  "encodeURIComponent s = Inr e \<Longrightarrow> decodeURIComponent e = Inr s"
proof (induction s arbitrary: e rule: encodeURIComponent.induct)
  case 1
  then show ?case by simp
next
  case (2 c cs)
  show ?case
  proof (cases "is_unescaped c")
    case True
    with "2.prems" obtain t where t: "encodeURIComponent cs = Inr t" and e: "e = c # t"
      by (auto simp: prepend_eq_Inr)
    from "2.IH"(1) [OF True t] True show ?thesis
      by (simp add: e unescaped_not_percent prepend_Inr)
  next
    case False
    note esc = this
    show ?thesis
    proof (cases "is_trail_surrogate c")
      case True
      with esc "2.prems" show ?thesis by simp
    next
      case nt: False
      show ?thesis
      proof (cases "is_lead_surrogate c")
        case True
        with esc nt "2.prems" obtain d ds t where cs: "cs = d # ds" and d: "is_trail_surrogate d"
          and t: "encodeURIComponent ds = Inr t"
          and e: "e = concat (map percent (utf8_encode (surrogate_pair c d))) @ t"
          by (auto simp: prepend_eq_Inr split: list.splits if_splits)
        from "2.IH"(2) [OF esc nt True cs d t] have "decodeURIComponent t = Inr ds" .
        then show ?thesis
          using decode_code_point [OF scalar_value_surrogate_pair [OF True d], of t]
          by (simp add: e cs utf16_encode_surrogate_pair [OF True d] prepend_Inr)
      next
        case nl: False
        with esc nt "2.prems" obtain t where t: "encodeURIComponent cs = Inr t"
          and e: "e = concat (map percent (utf8_encode (unat c))) @ t"
          by (auto simp: prepend_eq_Inr)
        from "2.IH"(3) [OF esc nt nl t] have "decodeURIComponent t = Inr cs" .
        then show ?thesis
          using decode_code_point [OF scalar_value_unat [OF nl nt], of t]
          by (simp add: e utf16_encode_unat prepend_Inr)
      qed
    qed
  qed
qed






section \<open>\<open>split\<close> undoes \<open>join\<close>\<close>






section \<open>Evaluation on concrete inputs\<close>

lemmas uri_eval =
  js_def code_unit_def prepend_def bind_result_def is_unescaped_def is_lead_surrogate_def
  is_trail_surrogate_def continuation_octets.simps utf8_encode_def utf16_encode_def percent_def
  hex_char_def hex_value_def leading_ones_def is_continuation_def surrogate_pair_def

lemmas array_eval =
  parseAsArrayOf_def createParser_def default_separator_def split_def split_pieces.simps
  parseAsArrayOf_serialize_def item_serialize_def parse_serialize_def

section \<open>\<open>parseAsArrayOf\<close>: what \<open>parse\<close> computes\<close>

lemma map_result_Inr:
  "map f xs = map Inr ys \<Longrightarrow> map_result f xs = Inr ys"
proof (induction xs arbitrary: ys)
  case Nil
  then show ?case by simp
next
  case (Cons x xs)
  then obtain y ys' where ys: "ys = y # ys'" by (cases ys) auto
  with Cons.prems have "f x = Inr y" "map f xs = map Inr ys'" by simp_all
  with Cons.IH [of ys'] show ?case by (simp add: ys bind_result_def)
qed

lemma map_callback_Inr:
  "length rs = length xs \<Longrightarrow> \<forall>i < length xs. f (xs ! i) (k + i) array = Inr (rs ! i) \<Longrightarrow>
   map_callback f array k xs = Inr rs"
proof (induction xs arbitrary: k rs)
  case Nil
  then show ?case by simp
next
  case (Cons x xs)
  then obtain r rs' where rs: "rs = r # rs'" by (cases rs) auto
  from Cons.prems(2) have "f ((x # xs) ! 0) (k + 0) array = Inr (rs ! 0)"
    by blast
  then have head: "f x k array = Inr r"
    by (simp add: rs)
  have "\<forall>i < length xs. f (xs ! i) (Suc k + i) array = Inr (rs' ! i)"
  proof (intro allI impI)
    fix i assume "i < length xs"
    then have "Suc i < length (x # xs)" by simp
    with Cons.prems(2) have "f ((x # xs) ! Suc i) (k + Suc i) array = Inr (rs ! Suc i)"
      by blast
    then show "f (xs ! i) (Suc k + i) array = Inr (rs' ! i)"
      by (simp add: rs)
  qed
  moreover from Cons.prems(1) have "length rs' = length xs"
    by (simp add: rs)
  ultimately have "map_callback f array (Suc k) xs = Inr rs'"
    by (rule Cons.IH [rotated])
  with head show ?case
    by (simp add: rs bind_result_def)
qed

lemma map_callback_one_parameter:
  "map_callback (one_parameter g) array k xs = map_result (\<lambda>item. g (Val item)) xs"
  by (induction xs arbitrary: k) (simp_all add: one_parameter_def)

lemma find_separator_Some:
  "find_separator sep s = Some (b, a) \<Longrightarrow> s = b @ sep @ a"
proof (induction s arbitrary: b)
  case Nil
  then show ?case by (simp split: if_splits)
next
  case (Cons c cs)
  show ?case
  proof (cases "take (length sep) (c # cs) = sep")
    case True
    with Cons.prems have b: "b = []" and a: "a = drop (length sep) (c # cs)"
      by simp_all
    have "take (length sep) (c # cs) @ drop (length sep) (c # cs) = c # cs"
      by (rule append_take_drop_id)
    then have "sep @ a = c # cs"
      by (simp only: True a)
    then show ?thesis by (simp add: b)
  next
    case False
    with Cons.prems obtain b' where f: "find_separator sep cs = Some (b', a)" and b: "b = c # b'"
      by (auto split: option.splits)
    from Cons.IH [OF f] show ?thesis by (simp add: b)
  qed
qed

lemma take_prefix: "s = sep @ v \<Longrightarrow> take (length sep) s = sep"
  by simp

lemma find_separator_first:
  "sep \<noteq> [] \<Longrightarrow> find_separator sep s = Some (b, a) \<Longrightarrow> b \<noteq> u @ sep @ v"
proof (induction s arbitrary: b u)
  case Nil
  then show ?case by (simp split: if_splits)
next
  case (Cons c cs)
  show ?case
  proof (cases "take (length sep) (c # cs) = sep")
    case True
    with Cons.prems show ?thesis by simp
  next
    case False
    with Cons.prems obtain b' where f: "find_separator sep cs = Some (b', a)" and b: "b = c # b'"
      by (auto split: option.splits)
    show ?thesis
    proof
      assume eq: "b = u @ sep @ v"
      show False
      proof (cases u)
        case Nil
        from find_separator_Some [OF f] have "c # cs = sep @ (v @ sep @ a)"
          using eq b Nil by simp
        then have "take (length sep) (c # cs) = sep"
          by (rule take_prefix)
        with False show False by simp
      next
        case (Cons x u')
        with eq b have "b' = u' @ sep @ v" by simp
        with Cons.IH [OF Cons.prems(1) f, of u'] show False by simp
      qed
    qed
  qed
qed

lemma find_separator_None:
  "find_separator sep s = None \<Longrightarrow> s \<noteq> u @ sep @ v"
proof (induction s arbitrary: u)
  case Nil
  then show ?case by (auto split: if_splits)
next
  case (Cons c cs)
  from Cons.prems have nt: "take (length sep) (c # cs) \<noteq> sep"
    and f: "find_separator sep cs = None"
    by (auto split: if_splits option.splits)
  show ?case
  proof
    assume eq: "c # cs = u @ sep @ v"
    show False
    proof (cases u)
      case Nil
      with eq have "c # cs = sep @ v" by simp
      then have "take (length sep) (c # cs) = sep" by (rule take_prefix)
      with nt show False by simp
    next
      case (Cons x u')
      with eq have "cs = u' @ sep @ v" by simp
      with Cons.IH [OF f, of u'] show False by simp
    qed
  qed
qed

lemma join_Cons: "ys \<noteq> [] \<Longrightarrow> join sep (x # ys) = x @ sep @ join sep ys"
  by (cases ys) simp_all

lemma split_pieces_nonempty: "split_pieces sep s \<noteq> []"
  by (subst split_pieces.simps) (simp split: option.splits)

lemma join_split_pieces: "sep \<noteq> [] \<Longrightarrow> join sep (split_pieces sep s) = s"
proof (induction sep s rule: split_pieces.induct)
  case (1 sep s)
  show ?case
  proof (cases "find_separator sep s")
    case None
    with "1.prems" show ?thesis
      by (simp add: split_pieces.simps [of sep s])
  next
    case (Some ba)
    obtain b a where ba: "ba = (b, a)" by (cases ba)
    from "1.IH" [OF "1.prems" Some ba [symmetric] "1.prems"]
    have "join sep (split_pieces sep a) = a" .
    moreover from Some ba have s: "s = b @ sep @ a"
      by (simp add: find_separator_Some)
    moreover from "1.prems" Some ba have "split_pieces sep s = b # split_pieces sep a"
      by (simp add: split_pieces.simps [of sep s])
    ultimately have "join sep (split_pieces sep s) = b @ sep @ a"
      using split_pieces_nonempty [of sep a] by (simp add: join_Cons)
    with s show ?thesis by simp
  qed
qed

lemma split_pieces_no_separator:
  "sep \<noteq> [] \<Longrightarrow> piece \<in> set (split_pieces sep s) \<Longrightarrow> piece \<noteq> u @ sep @ v"
proof (induction sep s rule: split_pieces.induct)
  case (1 sep s)
  show ?case
  proof (cases "find_separator sep s")
    case None
    with "1.prems" have "piece = s"
      by (simp add: split_pieces.simps [of sep s])
    with find_separator_None [OF None] show ?thesis by simp
  next
    case (Some ba)
    obtain b a where ba: "ba = (b, a)" by (cases ba)
    from "1.prems" Some ba have "piece = b \<or> piece \<in> set (split_pieces sep a)"
      by (simp add: split_pieces.simps [of sep s])
    then show ?thesis
    proof
      assume "piece = b"
      with find_separator_first [OF "1.prems"(1), of s b a u v] Some ba show ?thesis by simp
    next
      assume "piece \<in> set (split_pieces sep a)"
      with "1.IH" [OF "1.prems"(1) Some ba [symmetric] "1.prems"(1)] show ?thesis .
    qed
  qed
qed


lemma parse_parseAsArrayOf:
  "parse (parseAsArrayOf ts ip separator) = parseAsArrayOf_parse ip (default_separator separator)"
  by (simp add: parseAsArrayOf_def createParser_def)

lemma drop_nullish_concat:
  "drop_nullish results = concat (map (\<lambda>r. case r of Val v \<Rightarrow> [v] | _ \<Rightarrow> []) results)"
  by (induction results rule: drop_nullish.induct) simp_all

lemma split_of_empty: "sep \<noteq> [] \<Longrightarrow> split sep [] = [[]]"
  by (simp add: split_def split_pieces.simps [of sep "[]"])

lemma join_split: "sep \<noteq> [] \<Longrightarrow> join sep (split sep q) = q"
  by (simp add: split_def join_split_pieces)

lemma split_no_separator:
  "sep \<noteq> [] \<Longrightarrow> piece \<in> set (split sep q) \<Longrightarrow> piece \<noteq> u @ sep @ v"
  by (simp add: split_def split_pieces_no_separator)

lemma parseAsArrayOf_parse_nonempty:
  "q \<noteq> [] \<Longrightarrow>
   parse (parseAsArrayOf ts ip (Some sep)) (Val q) =
     bind_result (map_result decodeURIComponent (split sep q)) (\<lambda>items.
     bind_result (map_callback (parse_in_map ip) items 0 items) (\<lambda>results.
       Inr (Val (drop_nullish results))))"
  by (simp add: parse_parseAsArrayOf default_separator_def)

lemma parseAsArrayOf_parse_results:
  assumes "q \<noteq> []"
    and "map decodeURIComponent (split sep q) = map Inr items"
    and "length results = length items"
    and "\<forall>i < length items. parse_in_map ip (items ! i) i items = Inr (results ! i)"
  shows "parse (parseAsArrayOf ts ip (Some sep)) (Val q) = Inr (Val (drop_nullish results))"
proof -
  from assms(2) have "map_result decodeURIComponent (split sep q) = Inr items"
    by (rule map_result_Inr)
  moreover from assms(3,4) have "map_callback (parse_in_map ip) items 0 items = Inr results"
    using map_callback_Inr [of results items "parse_in_map ip" 0 items] by simp
  ultimately show ?thesis
    using assms(1) by (simp add: parseAsArrayOf_parse_nonempty bind_result_def)
qed

text \<open>
  C6. \<open>parseAsArrayOf(itemParser, separator).parse('')\<close> is the empty array, where
  splitting \<open>''\<close> would give the one piece \<open>''\<close>. On a non-empty query, \<open>parse\<close> splits the
  query at the separator (\<open>','\<close> when none is given), decodes every piece with
  \<open>decodeURIComponent\<close>, calls \<open>itemParser.parse\<close> on every decoded piece, as the callback
  of \<open>map\<close>, with the piece, its index and the array of decoded pieces, and keeps the
  results that are neither \<open>null\<close> nor \<open>undefined\<close>, in order; an exception of a
  decoding or of an item's \<open>parse\<close> ends the call. The pieces are those of the query:
  joined by the separator they give the query back, and the separator occurs in none
  of them. The decoding is the inverse of \<open>encodeURIComponent\<close>. When every piece
  decodes (to \<open>items\<close>) and every item parses (to \<open>results\<close>), the array returned is
  \<open>results\<close> without its \<open>null\<close> and \<open>undefined\<close> entries. For an item parser with one
  parameter the calls are \<open>itemParser.parse(item)\<close>.
\<close>

theorem parseAsArrayOf_parse_steps:
  "parse (parseAsArrayOf ts ip separator) (Val []) = Inr (Val [])
   \<and> (sep \<noteq> [] \<longrightarrow> split sep [] = [[]])
   \<and> (q \<noteq> [] \<longrightarrow>
        parse (parseAsArrayOf ts ip (Some sep)) (Val q) =
          bind_result (map_result decodeURIComponent (split sep q)) (\<lambda>items.
          bind_result (map_callback (parse_in_map ip) items 0 items) (\<lambda>results.
            Inr (Val (drop_nullish results)))))
   \<and> parse (parseAsArrayOf ts ip None) = parse (parseAsArrayOf ts ip (Some (js '','')))
   \<and> (sep \<noteq> [] \<longrightarrow>
        join sep (split sep q) = q
        \<and> (\<forall>piece \<in> set (split sep q). \<forall>u v. piece \<noteq> u @ sep @ v))
   \<and> (encodeURIComponent s = Inr e \<longrightarrow> decodeURIComponent e = Inr s)
   \<and> (q \<noteq> []
        \<and> map decodeURIComponent (split sep q) = map Inr items
        \<and> length results = length items
        \<and> (\<forall>i < length items. parse_in_map ip (items ! i) i items = Inr (results ! i))
      \<longrightarrow> parse (parseAsArrayOf ts ip (Some sep)) (Val q) = Inr (Val (drop_nullish results)))
   \<and> (parse_in_map ip = one_parameter (parse ip) \<longrightarrow>
        map_callback (parse_in_map ip) items 0 items
          = map_result (\<lambda>item. parse ip (Val item)) items)
   \<and> drop_nullish results = concat (map (\<lambda>r. case r of Val v \<Rightarrow> [v] | _ \<Rightarrow> []) results)"
proof (intro conjI impI ballI allI)
  show "parse (parseAsArrayOf ts ip separator) (Val []) = Inr (Val [])"
    by (simp add: parse_parseAsArrayOf)
  show "parse (parseAsArrayOf ts ip None) = parse (parseAsArrayOf ts ip (Some (js '','')))"
    by (simp add: parse_parseAsArrayOf default_separator_def)
  show "drop_nullish results = concat (map (\<lambda>r. case r of Val v \<Rightarrow> [v] | _ \<Rightarrow> []) results)"
    by (rule drop_nullish_concat)
next
  assume "sep \<noteq> []"
  then show "split sep [] = [[]]" by (rule split_of_empty)
next
  assume "q \<noteq> []"
  then show "parse (parseAsArrayOf ts ip (Some sep)) (Val q) =
          bind_result (map_result decodeURIComponent (split sep q)) (\<lambda>items.
          bind_result (map_callback (parse_in_map ip) items 0 items) (\<lambda>results.
            Inr (Val (drop_nullish results))))"
    by (rule parseAsArrayOf_parse_nonempty)
next
  assume "sep \<noteq> []"
  then show "join sep (split sep q) = q" by (rule join_split)
next
  fix piece u v
  assume "sep \<noteq> []" "piece \<in> set (split sep q)"
  then show "piece \<noteq> u @ sep @ v" by (rule split_no_separator)
next
  assume "encodeURIComponent s = Inr e"
  then show "decodeURIComponent e = Inr s" by (rule decode_encode)
next
  assume "q \<noteq> []
        \<and> map decodeURIComponent (split sep q) = map Inr items
        \<and> length results = length items
        \<and> (\<forall>i < length items. parse_in_map ip (items ! i) i items = Inr (results ! i))"
  then show "parse (parseAsArrayOf ts ip (Some sep)) (Val q) = Inr (Val (drop_nullish results))"
    using parseAsArrayOf_parse_results [of q sep items results ip ts] by blast
next
  assume "parse_in_map ip = one_parameter (parse ip)"
  then show "map_callback (parse_in_map ip) items 0 items
          = map_result (\<lambda>item. parse ip (Val item)) items"
    by (simp add: map_callback_one_parameter)
qed


theorem parseAsArrayOf_parse_steps_witness:
  "js '';'' \<noteq> []
   \<and> js ''1;x;%33'' \<noteq> []
   \<and> split (js '';'') [] = [[]]
   \<and> map decodeURIComponent (split (js '';'') (js ''1;x;%33''))
       = map Inr [js ''1'', js ''x'', js ''3'']
   \<and> parse_in_map (parseAsInteger (\<lambda>r. [])) (js ''1'') 0 [js ''1'', js ''x'', js ''3'']
       = Inr (Val (Fin 1))
   \<and> parse_in_map (parseAsInteger (\<lambda>r. [])) (js ''x'') 1 [js ''1'', js ''x'', js ''3'']
       = Inr Null
   \<and> parse_in_map (parseAsInteger (\<lambda>r. [])) (js ''3'') 2 [js ''1'', js ''x'', js ''3'']
       = Inr (Val (Fin 3))
   \<and> parse (parseAsArrayOf (\<lambda>v. []) (parseAsInteger (\<lambda>r. [])) (Some (js '';'')))
         (Val (js ''1;x;%33''))
       = Inr (Val [Fin 1, Fin 3])
   \<and> join (js '';'') (split (js '';'') (js ''1;x;%33'')) = js ''1;x;%33''
   \<and> encodeURIComponent (js ''a;b'') = Inr (js ''a%3Bb'')
   \<and> decodeURIComponent (js ''a%3Bb'') = Inr (js ''a;b'')
   \<and> parse_in_map (parseAsInteger (\<lambda>r. [])) = one_parameter (parse (parseAsInteger (\<lambda>r. [])))
   \<and> map_callback (parse_in_map (parseAsInteger (\<lambda>r. [])))
         [js ''1'', js ''x'', js ''3''] 0 [js ''1'', js ''x'', js ''3'']
       = map_result (\<lambda>item. parse (parseAsInteger (\<lambda>r. [])) (Val item))
           [js ''1'', js ''x'', js ''3'']"
proof -
  let ?ip = "parseAsInteger (\<lambda>r. [])"
  let ?items = "[js ''1'', js ''x'', js ''3'']"
  let ?results = "[Val (Fin 1), Null, Val (Fin 3)]"
  have sep: "js '';'' \<noteq> []" and q: "js ''1;x;%33'' \<noteq> []"
    by (simp_all add: js_def)
  have dec: "map decodeURIComponent (split (js '';'') (js ''1;x;%33'')) = map Inr ?items"
    by (simp add: split_def split_pieces.simps uri_eval)
  have p0: "parse_in_map ?ip (js ''1'') 0 ?items = Inr (Val (Fin 1))"
    and p1: "parse_in_map ?ip (js ''x'') 1 ?items = Inr Null"
    and p2: "parse_in_map ?ip (js ''3'') 2 ?items = Inr (Val (Fin 3))"
    by (simp_all add: parseAsInteger_def createParser_def one_parameter_def
        parseAsInteger_parse_def parseInt_eval)
  have len: "length ?results = length ?items"
    by simp
  have each: "\<forall>i < length ?items. parse_in_map ?ip (?items ! i) i ?items = Inr (?results ! i)"
  proof (intro allI impI)
    fix i assume "i < length ?items"
    then have "i = 0 \<or> i = 1 \<or> i = 2" by auto
    with p0 p1 p2 show "parse_in_map ?ip (?items ! i) i ?items = Inr (?results ! i)"
      by auto
  qed
  have enc: "encodeURIComponent (js ''a;b'') = Inr (js ''a%3Bb'')"
    by (simp add: uri_eval)
  have one: "parse_in_map ?ip = one_parameter (parse ?ip)"
    by (simp add: parseAsInteger_def createParser_def)
  note steps = parseAsArrayOf_parse_steps
    [of "\<lambda>v. []" ?ip "Some (js '';'')" "js '';''" "js ''1;x;%33''" "js ''a;b''" "js ''a%3Bb''"
        ?items ?results]
  from steps sep have "split (js '';'') [] = [[]]"
    by blast
  moreover from steps q dec len each
  have "parse (parseAsArrayOf (\<lambda>v. []) ?ip (Some (js '';''))) (Val (js ''1;x;%33''))
       = Inr (Val (drop_nullish ?results))"
    by blast
  moreover from steps sep have "join (js '';'') (split (js '';'') (js ''1;x;%33'')) = js ''1;x;%33''"
    by blast
  moreover from steps enc have "decodeURIComponent (js ''a%3Bb'') = Inr (js ''a;b'')"
    by blast
  moreover from steps one have "map_callback (parse_in_map ?ip) ?items 0 ?items
       = map_result (\<lambda>item. parse ?ip (Val item)) ?items"
    by blast
  ultimately show ?thesis
    using sep q dec p0 p1 p2 enc one by simp
qed

section \<open>\<open>parseServerSide\<close>: which string is parsed\<close>

text \<open>
  C2. \<open>parseAsArrayOf(parseAsString)\<close> is built with \<open>createParser\<close>, and its
  \<open>parseServerSide('%')\<close> throws: the \<open>URIError\<close> of the \<open>decodeURIComponent\<close> call that
  \<open>parseAsArrayOf\<close> leaves unguarded passes through \<open>parseServerSide\<close>.
\<close>

theorem parseServerSide_throws:
  "call_parseServerSide (parseAsArrayOf id parseAsString None) (RawString (js ''%'')) = Inl URIError"
  by (simp add: call_parseServerSide_def parseServerSide_def array_eval parseAsString_def uri_eval)

text \<open>
  What \<open>parseServerSide\<close> itself does: for every parser \<open>p\<close>,
  \<open>createParser(p).parseServerSide\<close> returns exactly what \<open>p.parse\<close> returns (or throws
  what it throws) on one value: the first element of an array, the string itself, the
  empty string for \<open>undefined\<close>. With the integer codec, \<open>parseServerSide(['1', '2'])\<close>
  is \<open>1\<close>. When \<open>p.parse\<close> never throws, \<open>parseServerSide\<close> never throws.
\<close>

lemma parseServerSide_first_element:
  "call_parseServerSide (createParser p) (RawArray xs) = parse p (first_element xs)
   \<and> call_parseServerSide (createParser p) (RawArray (x # xs)) = parse p (Val x)
   \<and> call_parseServerSide (createParser p) (RawString s) = parse p (Val s)
   \<and> call_parseServerSide (createParser p) RawUndefined = parse p (Val [])
   \<and> call_parseServerSide (parseAsInteger ntos) (RawArray [js ''1'', js ''2'']) = Inr (Val (Fin 1))
   \<and> ((\<forall>v. \<exists>r. parse p v = Inr r) \<longrightarrow> (\<exists>r. call_parseServerSide (createParser p) raw = Inr r))"
proof -
  have int: "call_parseServerSide (parseAsInteger ntos) (RawArray [js ''1'', js ''2'']) = Inr (Val (Fin 1))"
    by (simp add: parseAsInteger_def call_parseServerSide_createParser parseServerSide_def
        parseAsInteger_parse_def parseInt_eval)
  have "\<exists>v. call_parseServerSide (createParser p) raw = parse p v"
    by (cases raw) (auto simp: call_parseServerSide_createParser parseServerSide_def)
  then have "(\<forall>v. \<exists>r. parse p v = Inr r) \<longrightarrow> (\<exists>r. call_parseServerSide (createParser p) raw = Inr r)"
    by metis
  with int show ?thesis
    by (simp add: call_parseServerSide_createParser parseServerSide_def)
qed

lemma parseServerSide_first_element_total_parser:
  "(\<forall>v. \<exists>r. parse \<lparr>parse = (\<lambda>v. Inr v), parse_in_map = one_parameter (\<lambda>v. Inr v), serialize = None\<rparr> v = Inr (r :: jsstring maybe))
   \<and> (\<exists>r. call_parseServerSide
              (createParser \<lparr>parse = (\<lambda>v. Inr v), parse_in_map = one_parameter (\<lambda>v. Inr v), serialize = None\<rparr>)
              (RawArray [js ''a'', js ''b'']) = Inr (r :: jsstring maybe))"
proof -
  have total: "\<forall>v. \<exists>r. parse \<lparr>parse = (\<lambda>v. Inr v), parse_in_map = one_parameter (\<lambda>v. Inr v), serialize = None\<rparr> v = Inr (r :: jsstring maybe)"
    by simp
  from parseServerSide_first_element
    [of "\<lparr>parse = (\<lambda>v. Inr v), parse_in_map = one_parameter (\<lambda>v. Inr v), serialize = None\<rparr> :: jsstring parser" _ _ _ _ "RawArray [js ''a'', js ''b'']"]
    total
  have "\<exists>r. call_parseServerSide
              (createParser \<lparr>parse = (\<lambda>v. Inr v), parse_in_map = one_parameter (\<lambda>v. Inr v), serialize = None\<rparr>)
              (RawArray [js ''a'', js ''b'']) = Inr (r :: jsstring maybe)"
    by blast
  with total show ?thesis by blast
qed

section \<open>Decode failures\<close>

text \<open>
  C4. Three inputs on which a built-in \<open>parse\<close> does not answer a malformed string
  with \<open>null\<close>: \<open>parseAsArrayOf(parseAsString).parse('%')\<close> throws a \<open>URIError\<close>;
  \<open>parseAsTimestamp.parse('abc')\<close> and \<open>parseAsIsoDateTime.parse('abc')\<close> (on a platform
  whose \<open>Date.parse\<close> reads nothing) return the invalid date.
\<close>

theorem parse_decode_failures:
  "parse (parseAsArrayOf id parseAsString None) (Val (js ''%'')) = Inl URIError
   \<and> parse (parseAsTimestamp ntos) (Val (js ''abc'')) = Inr (Val (Date NaN))
   \<and> parse (parseAsIsoDateTime (\<lambda>s. NaN) render) (Val (js ''abc'')) = Inr (Val (Date NaN))"
  by (simp add: array_eval parseAsString_def uri_eval parseAsTimestamp_def
      parseAsTimestamp_parse_def new_Date_number_def parseInt_eval
      parseAsIsoDateTime_def parseAsIsoDateTime_parse_def)

section \<open>\<open>parseAsJson\<close>: the validator's exception\<close>

lemma parse_parseAsJson:
  "parse (parseAsJson JSON_parse JSON_stringify parser) = parseAsJson_parse JSON_parse parser"
  by (simp add: parseAsJson_def createParser_def)

text \<open>
  C7. \<open>parseAsJson(validator).parse\<close> never throws. When the query decodes, the
  decoded text is valid JSON and the validator throws on the value, \<open>parse\<close> returns
  \<open>null\<close>.
\<close>

theorem parseAsJson_validator_throws:
  "(\<exists>r. parse (parseAsJson JSON_parse JSON_stringify parser) query = Inr r)
   \<and> (decodeURIComponent (ToString query) = Inr text \<and> JSON_parse text = Inr obj
        \<and> validator obj = Inl e
      \<longrightarrow> parse (parseAsJson JSON_parse JSON_stringify (Some validator)) query = Inr Null)"
  by (auto simp: parse_parseAsJson parseAsJson_parse_def try_catch_def bind_result_def
      split: sum.splits option.splits)

theorem parseAsJson_validator_throws_witness:
  "decodeURIComponent (ToString (Val (js ''1''))) = Inr (js ''1'')
   \<and> (\<lambda>t. if t = js ''1'' then Inr (Val (1::nat)) else Inl SyntaxError) (js ''1'') = Inr (Val 1)
   \<and> (\<lambda>obj. Inl (Thrown (js ''not a string''))) (Val (1::nat)) = (Inl (Thrown (js ''not a string'')) :: nat maybe result)
   \<and> parse (parseAsJson (\<lambda>t. if t = js ''1'' then Inr (Val (1::nat)) else Inl SyntaxError)
               (\<lambda>v. Inr Undefined) (Some (\<lambda>obj. Inl (Thrown (js ''not a string'')))))
         (Val (js ''1'')) = Inr Null"
proof -
  have d: "decodeURIComponent (ToString (Val (js ''1''))) = Inr (js ''1'')"
    by (simp add: uri_eval)
  from parseAsJson_validator_throws
    [of "\<lambda>t. if t = js ''1'' then Inr (Val (1::nat)) else Inl SyntaxError" "\<lambda>v. Inr Undefined"
        "Some (\<lambda>obj. Inl (Thrown (js ''not a string'')))" "Val (js ''1'')" "js ''1''" "Val 1"
        "\<lambda>obj. Inl (Thrown (js ''not a string''))" "Thrown (js ''not a string'')"] d
  show ?thesis by simp
qed

section \<open>The testing adapter: events and initial search params\<close>

lemma update_calls_record_event:
  "onUrlUpdate props = Some record_event \<Longrightarrow>
   update_calls (useAdapter pq render props) calls events =
     events @ map (\<lambda>(search, resolved).
        \<lparr>searchParams = search, queryString = render search, options = resolved\<rparr>) calls"
proof (induction calls arbitrary: events)
  case Nil
  show ?case by simp
next
  case (Cons call calls)
  obtain search resolved where call: "call = (search, resolved)" by (cases call)
  from Cons.prems have
    "updateUrl (useAdapter pq render props) search resolved events =
       events @ [\<lparr>searchParams = search, queryString = render search, options = resolved\<rparr>]"
    by (simp add: useAdapter_def record_event_def)
  with Cons.IH [OF Cons.prems] show ?case
    by (simp add: call)
qed

text \<open>
  C9. Every \<open>updateUrl(search, options)\<close> call of the testing adapter runs the
  \<open>onUrlUpdate\<close> callback, when the props have one, once, on the event made of \<open>search\<close>,
  \<open>renderQueryString(search)\<close> and \<open>options\<close>, and does nothing else; an observer that
  keeps its events has, after a sequence of calls, one event per call, in order. The
  adapter's \<open>searchParams\<close> are built from the \<open>searchParams\<close> prop: from a string (a
  leading \<open>?\<close> removed), from an object's entries, from a \<open>URLSearchParams\<close>, or empty
  when the prop is absent.
\<close>

theorem testing_adapter_reports:
  "updateUrl (useAdapter pq render props) search resolved observer =
     (case onUrlUpdate props of
        None \<Rightarrow> observer
      | Some callback \<Rightarrow>
          callback \<lparr>searchParams = search, queryString = render search, options = resolved\<rparr>
            observer)
   \<and> (onUrlUpdate props' = Some record_event \<longrightarrow>
        update_calls (useAdapter pq render props') calls [] =
          map (\<lambda>(search, resolved).
            \<lparr>searchParams = search, queryString = render search, options = resolved\<rparr>) calls)
   \<and> adapter_searchParams (useAdapter pq render (props\<lparr>searchParams_prop := Some (InitString s)\<rparr>))
       = pq (case s of [] \<Rightarrow> [] | c # cs \<Rightarrow> if c = 0x3F then cs else s)
   \<and> adapter_searchParams (useAdapter pq render (props\<lparr>searchParams_prop := Some (InitRecord entries)\<rparr>))
       = entries
   \<and> adapter_searchParams (useAdapter pq render (props\<lparr>searchParams_prop := Some (InitParams ps)\<rparr>))
       = ps
   \<and> adapter_searchParams (useAdapter pq render (props\<lparr>searchParams_prop := None\<rparr>)) = []"
proof -
  have "updateUrl (useAdapter pq render props) search resolved observer =
     (case onUrlUpdate props of
        None \<Rightarrow> observer
      | Some callback \<Rightarrow>
          callback \<lparr>searchParams = search, queryString = render search, options = resolved\<rparr>
            observer)"
    by (simp add: useAdapter_def split: option.splits)
  moreover have "onUrlUpdate props' = Some record_event \<longrightarrow>
        update_calls (useAdapter pq render props') calls [] =
          map (\<lambda>(search, resolved).
            \<lparr>searchParams = search, queryString = render search, options = resolved\<rparr>) calls"
    using update_calls_record_event [of props' pq render calls "[]"] by simp
  ultimately show ?thesis
    by (simp add: useAdapter_def)
qed

theorem testing_adapter_reports_witness:
  "onUrlUpdate \<lparr>searchParams_prop = Some (InitString (js ''?q=hello'')),
                 onUrlUpdate = Some record_event, rateLimitFactor_prop = None\<rparr>
     = Some (record_event :: string UrlUpdateEvent \<Rightarrow> _)
   \<and> update_calls
         (useAdapter (\<lambda>s. []) (\<lambda>ps. concat (map (\<lambda>(k, v). k @ js ''='' @ v) ps))
            \<lparr>searchParams_prop = Some (InitString (js ''?q=hello'')),
             onUrlUpdate = Some record_event, rateLimitFactor_prop = None\<rparr>)
         [([(js ''q'', js ''world'')], ''push'')] []
       = [\<lparr>searchParams = [(js ''q'', js ''world'')], queryString = js ''q=world'',
            options = ''push''\<rparr>]"
proof -
  have cb: "onUrlUpdate \<lparr>searchParams_prop = Some (InitString (js ''?q=hello'')),
                 onUrlUpdate = Some record_event, rateLimitFactor_prop = None\<rparr>
     = Some (record_event :: string UrlUpdateEvent \<Rightarrow> _)"
    by simp
  have "onUrlUpdate props' = Some record_event \<longrightarrow>
        update_calls (useAdapter pq render props') calls [] =
          map (\<lambda>(search, resolved).
            \<lparr>searchParams = search, queryString = render search, options = resolved\<rparr>) calls"
    for pq render and props' :: "(string, string UrlUpdateEvent list) TestingAdapterProps"
      and calls
    using testing_adapter_reports [of pq render props' _ _ _ props' calls] by blast
  from this [of "\<lparr>searchParams_prop = Some (InitString (js ''?q=hello'')),
                 onUrlUpdate = Some record_event, rateLimitFactor_prop = None\<rparr>"
      "\<lambda>s. []" "\<lambda>ps. concat (map (\<lambda>(k, v). k @ js ''='' @ v) ps)"
      "[([(js ''q'', js ''world'')], ''push'')]"] cb
  show ?thesis by (simp add: js_def)
qed

section \<open>\<open>parseInt\<close> reads back the decimal digits of an integer\<close>

lemma decimal_digits: "c \<in> set (decimal n) \<Longrightarrow> 48 \<le> unat c \<and> unat c \<le> 57"
proof (induction n arbitrary: c rule: decimal.induct)
  case (1 n)
  show ?case
  proof (cases "n < 10")
    case True
    with "1.prems" have "c = code_unit (48 + n)"
      by (simp add: decimal.simps [of n])
    with True show ?thesis by (simp add: unat_code_unit)
  next
    case False
    with "1.prems" have "c \<in> set (decimal (n div 10)) \<or> c = code_unit (48 + n mod 10)"
      by (auto simp: decimal.simps [of n])
    then show ?thesis
    proof
      assume "c \<in> set (decimal (n div 10))"
      with "1.IH" [OF False] show ?thesis .
    next
      assume "c = code_unit (48 + n mod 10)"
      then show ?thesis by (simp add: unat_code_unit)
    qed
  qed
qed


lemma digit_value_decimal: "48 \<le> unat c \<Longrightarrow> unat c \<le> 57 \<Longrightarrow> digit_value c = Some (unat c - 48)"
  by (simp add: digit_value_def)



lemma decimal_all_digits: "takeWhile (is_radix_digit 10) (decimal n) = decimal n"
proof -
  have "\<forall>c \<in> set (decimal n). is_radix_digit 10 c"
  proof
    fix c assume "c \<in> set (decimal n)"
    then have "48 \<le> unat c \<and> unat c \<le> 57" by (rule decimal_digits)
    then show "is_radix_digit 10 c"
      by (simp add: is_radix_digit_def digit_value_def Let_def) arith
  qed
  then show ?thesis by (simp add: takeWhile_eq_all_conv)
qed







section \<open>Serialize, then parse: the built-in codecs\<close>





















section \<open>Serialize, then parse: the claim and its limits\<close>











end
